theory Spec2Isabelle
  imports Main
begin

section \<open>Step70: the FHIR provider-network crawler and relational flattener\<close>

text \<open>
  A shallow embedding of \<^verbatim>\<open>src/Step70_SlurpPayerProviderNetworks.py\<close>. Python's dynamically
  typed JSON values are a datatype, every exception the script can raise while it walks
  them is a value of \<open>error\<close>, and the two effects of the script (HTTP requests with
  their backoff sleeps, and the CSV files it writes) are recorded in an explicit \<open>world\<close>.
\<close>

subsection \<open>JSON values as Python sees them\<close>

text \<open>
  What \<^verbatim>\<open>response.json()\<close> returns. \<open>JNull\<close> is Python's \<^verbatim>\<open>None\<close>; \<open>JObj\<close> holds the
  items of a dict in insertion order (the first binding of a key is the one looked up).
  Floating-point numbers are left out.
\<close>

datatype json =
    JNull
  | JBool bool
  | JNum int
  | JStr string
  | JArr "json list"
  | JObj "(string \<times> json) list"

datatype error = AttributeError | TypeError | KeyError | IndexError

text \<open>Python truthiness: \<^verbatim>\<open>if x:\<close>.\<close>

fun truthy :: "json \<Rightarrow> bool" where
  "truthy JNull = False"
| "truthy (JBool b) = b"
| "truthy (JNum n) = (n \<noteq> 0)"
| "truthy (JStr s) = (s \<noteq> [])"
| "truthy (JArr xs) = (xs \<noteq> [])"
| "truthy (JObj kvs) = (kvs \<noteq> [])"

text \<open>\<^verbatim>\<open>x.get(k, d)\<close>: only a dict has \<^verbatim>\<open>get\<close>; anything else raises AttributeError.\<close>

fun dict_get :: "json \<Rightarrow> string \<Rightarrow> json \<Rightarrow> error + json" where
  "dict_get (JObj kvs) k d = Inr (case map_of kvs k of None \<Rightarrow> d | Some v \<Rightarrow> v)"
| "dict_get _ k d = Inl AttributeError"

text \<open>\<^verbatim>\<open>for x in xs\<close>: a list yields its elements, a string its characters, a dict its
  keys; \<^verbatim>\<open>None\<close>, numbers and booleans raise TypeError.\<close>

fun py_iter :: "json \<Rightarrow> error + json list" where
  "py_iter (JArr xs) = Inr xs"
| "py_iter (JStr s) = Inr (map (\<lambda>c. JStr [c]) s)"
| "py_iter (JObj kvs) = Inr (map (\<lambda>kv. JStr (fst kv)) kvs)"
| "py_iter _ = Inl TypeError"

text \<open>\<^verbatim>\<open>xs[0]\<close>.\<close>

fun py_first :: "json \<Rightarrow> error + json" where
  "py_first (JArr []) = Inl IndexError"
| "py_first (JArr (x # xs)) = Inr x"
| "py_first (JStr []) = Inl IndexError"
| "py_first (JStr (c # cs)) = Inr (JStr [c])"
| "py_first (JObj kvs) = Inl KeyError"
| "py_first _ = Inl TypeError"

text \<open>\<^verbatim>\<open>sep.join(parts)\<close> for a Python list \<open>parts\<close>: every item must be a string.\<close>

fun join_strs :: "string \<Rightarrow> json list \<Rightarrow> error + string" where
  "join_strs sep [] = Inr []"
| "join_strs sep [JStr s] = Inr s"
| "join_strs sep (JStr s # x # xs) =
     (case join_strs sep (x # xs) of Inl e \<Rightarrow> Inl e | Inr r \<Rightarrow> Inr (s @ sep @ r))"
| "join_strs sep (_ # xs) = Inl TypeError"

text \<open>\<^verbatim>\<open>s.startswith(p)\<close>, \<^verbatim>\<open>s.endswith(p)\<close> and \<^verbatim>\<open>s.split('/')[-1]\<close> on strings.\<close>

definition startswith :: "string \<Rightarrow> string \<Rightarrow> bool" where
  "startswith s p = (take (length p) s = p)"

definition endswith :: "string \<Rightarrow> string \<Rightarrow> bool" where
  "endswith s p = (length p \<le> length s \<and> drop (length s - length p) s = p)"

definition last_segment :: "string \<Rightarrow> string" where
  "last_segment s = rev (takeWhile (\<lambda>c. c \<noteq> CHR ''/'') (rev s))"

text \<open>Sequencing of steps that may raise: the first exception ends the computation.\<close>

definition bind :: "'x + 'v \<Rightarrow> ('v \<Rightarrow> 'x + 'r) \<Rightarrow> 'x + 'r" where
  "bind step rest = (case step of Inl exn \<Rightarrow> Inl exn | Inr v \<Rightarrow> rest v)"

subsection \<open>The world: requests, sleeps and files\<close>

text \<open>
  \<open>Get u\<close> is one \<^verbatim>\<open>requests.get(u)\<close>, \<open>Sleep n\<close> one \<^verbatim>\<open>time.sleep(n)\<close>. \<open>Fetched k i ok\<close>
  is a ghost event: the resolver called the Fetcher for the entity of kind \<open>k\<close> with
  id \<open>i\<close>, and \<open>ok\<close> tells whether it stored the result. \<open>Log_error n e\<close> is the line
  the orchestrator prints when payer \<open>n\<close> raised \<open>e\<close>.

  A CSV file is the list of its lines, each line the list of its cells; the header line
  holds the field names. The file system maps a path to the file there.
\<close>

datatype kind = Organization | Location | Practitioner

datatype event =
    Get string
  | Sleep nat
  | Fetched kind string bool
  | Log_error string error

type_synonym csv = "json list list"

record world =
  trace :: "event list"
  reqs :: nat
  files :: "string \<rightharpoonup> csv"

text \<open>
  The upstream server is a parameter: \<open>srv n u\<close> is the outcome of the request to \<open>u\<close>
  that is the \<open>n\<close>-th request of the whole run. \<open>Failed\<close> stands for every
  \<^verbatim>\<open>RequestException\<close> (transport error, timeout, non-2xx status through
  \<^verbatim>\<open>raise_for_status\<close>, a body that is not JSON); \<open>Body j\<close> is a parsed body.
\<close>

datatype response = Failed | Body json

type_synonym server = "nat \<Rightarrow> string \<Rightarrow> response"

text \<open>An exception carries the world in which it was raised; \<open>world_of\<close> is the world in
  which a computation ended, with a result or with an exception.\<close>

definition world_of :: "(error \<times> world) + ('a \<times> world) \<Rightarrow> world" where
  "world_of r = (case r of Inl ew \<Rightarrow> snd ew | Inr xw \<Rightarrow> snd xw)"

text \<open>The Fetcher invocations recorded in a trace for the entity of kind \<open>k\<close> with id
  \<open>i\<close>: one flag for each, in order, telling whether the result was stored.\<close>

fun fetches_of :: "kind \<Rightarrow> string \<Rightarrow> event list \<Rightarrow> bool list" where
  "fetches_of k i [] = []"
| "fetches_of k i (Fetched k' i' ok # evs) =
     (if k' = k \<and> i' = i then ok # fetches_of k i evs else fetches_of k i evs)"
| "fetches_of k i (_ # evs) = fetches_of k i evs"

subsection \<open>Resource Fetcher\<close>

text \<open>
  \<^verbatim>\<open>fetch_fhir_resource\<close>, lines 51-71. \<open>fetch_attempts\<close> is the \<^verbatim>\<open>for attempt in
  range(max_retries)\<close> loop with \<open>k\<close> iterations left and \<open>a\<close> the current attempt; when
  the range is exhausted the function falls off its end and returns \<^verbatim>\<open>None\<close>.
\<close>

fun fetch_attempts :: "server \<Rightarrow> string \<Rightarrow> int \<Rightarrow> nat \<Rightarrow> nat \<Rightarrow> world \<Rightarrow> json \<times> world" where
  "fetch_attempts srv url max_retries 0 a w = (JNull, w)"
| "fetch_attempts srv url max_retries (Suc k) a w =
     (let w1 = w\<lparr>trace := trace w @ [Get url], reqs := Suc (reqs w)\<rparr> in
      case srv (reqs w) url of
        Body j \<Rightarrow> (j, w1)
      | Failed \<Rightarrow>
          if int a < max_retries - 1
          then fetch_attempts srv url max_retries k (Suc a)
                 (w1\<lparr>trace := trace w1 @ [Sleep (2 ^ a)]\<rparr>)
          else (JNull, w1))"

definition fetch_fhir_resource :: "server \<Rightarrow> string \<Rightarrow> int \<Rightarrow> world \<Rightarrow> json \<times> world" where
  "fetch_fhir_resource srv url max_retries w =
     fetch_attempts srv url max_retries (nat max_retries) 0 w"

text \<open>The trace of a fetch that makes \<open>k\<close> attempts starting at attempt \<open>a\<close>: a request,
  then a sleep of \<open>2 ^ a\<close> before each further request.\<close>

fun attempts_trace :: "string \<Rightarrow> nat \<Rightarrow> nat \<Rightarrow> event list" where
  "attempts_trace url a 0 = []"
| "attempts_trace url a (Suc 0) = [Get url]"
| "attempts_trace url a (Suc (Suc k)) = Get url # Sleep (2 ^ a) # attempts_trace url (Suc a) (Suc k)"

subsection \<open>Library functions and the upstream server\<close>

text \<open>
  \<^verbatim>\<open>urllib.parse.urljoin\<close> and the text Python's \<^verbatim>\<open>str()\<close> gives for a value that is not a
  string are library behaviour and are taken as parameters, together with the server.
\<close>

record env =
  urljoin :: "string \<Rightarrow> string \<Rightarrow> string"
  pystr :: "json \<Rightarrow> string"
  upstream :: server

text \<open>The text an f-string inserts for \<open>{x}\<close>, also what \<^verbatim>\<open>requests\<close> makes of a URL
  argument.\<close>

definition fmt :: "env \<Rightarrow> json \<Rightarrow> string" where
  "fmt env j = (case j of JStr s \<Rightarrow> s | _ \<Rightarrow> pystr env j)"

text \<open>Lines 77-78 and 223-224.\<close>

definition normalize_base :: "string \<Rightarrow> string" where
  "normalize_base base_url = (if \<not> endswith base_url ''/'' then base_url @ ''/'' else base_url)"

subsection \<open>Paginator\<close>

text \<open>The \<^verbatim>\<open>for entry in entries\<close> loop, lines 93-101; the \<^verbatim>\<open>break\<close> at line 101 returns
  the entries accumulated so far.\<close>

fun entry_loop :: "bool \<Rightarrow> int \<Rightarrow> json list \<Rightarrow> json list \<Rightarrow> error + json list" where
  "entry_loop test_mode test_limit [] all_entries = Inr all_entries"
| "entry_loop test_mode test_limit (entry # entries) all_entries =
     bind (dict_get entry ''resource'' (JObj [])) (\<lambda>resource.
     bind (dict_get resource ''resourceType'' JNull) (\<lambda>rt.
       if rt = JStr ''PractitionerRole''
       then (let all_entries' = all_entries @ [resource] in
             if test_mode \<and> test_limit \<le> int (length all_entries')
             then Inr all_entries'
             else entry_loop test_mode test_limit entries all_entries')
       else entry_loop test_mode test_limit entries all_entries))"

text \<open>The search for the next link, lines 110-114.\<close>

fun find_next :: "json list \<Rightarrow> error + json" where
  "find_next [] = Inr JNull"
| "find_next (link # links) =
     bind (dict_get link ''relation'' JNull) (\<lambda>rel.
       if rel = JStr ''next'' then dict_get link ''url'' JNull else find_next links)"

text \<open>
  The \<^verbatim>\<open>while next_url\<close> loop, lines 85-114. Nothing bounds the number of pages a server
  may chain, so the loop takes fuel and \<open>None\<close> means that it ran out. An exception
  carries the world in which it was raised.
\<close>

fun pages_loop ::
  "nat \<Rightarrow> env \<Rightarrow> bool \<Rightarrow> int \<Rightarrow> json \<Rightarrow> json list \<Rightarrow> world
     \<Rightarrow> ((error \<times> world) + (json list \<times> world)) option" where
  "pages_loop 0 env test_mode test_limit next_url all_entries w = None"
| "pages_loop (Suc fuel) env test_mode test_limit next_url all_entries w =
     (if \<not> truthy next_url then Some (Inr (all_entries, w))
      else
        let (bundle, w1) = fetch_fhir_resource (upstream env) (fmt env next_url) 3 w in
        if \<not> truthy bundle then Some (Inr (all_entries, w1))
        else
          case bind (dict_get bundle ''entry'' (JArr [])) (\<lambda>entries.
               bind (py_iter entries) (\<lambda>es.
               entry_loop test_mode test_limit es all_entries)) of
            Inl e \<Rightarrow> Some (Inl (e, w1))
          | Inr all_entries' \<Rightarrow>
              if test_mode \<and> test_limit \<le> int (length all_entries')
              then Some (Inr (all_entries', w1))
              else
                (case bind (dict_get bundle ''link'' (JArr [])) (\<lambda>links.
                      bind (py_iter links) find_next) of
                   Inl e \<Rightarrow> Some (Inl (e, w1))
                 | Inr nxt \<Rightarrow> pages_loop fuel env test_mode test_limit nxt all_entries' w1))"

definition fetch_all_practitioner_roles ::
  "nat \<Rightarrow> env \<Rightarrow> string \<Rightarrow> bool \<Rightarrow> int \<Rightarrow> world
     \<Rightarrow> ((error \<times> world) + (json list \<times> world)) option" where
  "fetch_all_practitioner_roles fuel env base_url test_mode test_limit w =
     pages_loop fuel env test_mode test_limit
       (JStr (urljoin env (normalize_base base_url) ''PractitionerRole?_count=100'')) [] w"

subsection \<open>Field extractors\<close>

text \<open>\<^verbatim>\<open>extract_npi_from_practitioner\<close>, lines 119-131: \<open>coding_has_npi\<close> is the inner loop
  over one identifier's codings (lines 126-130, up to the test that triggers the return),
  \<open>npi_scan\<close> the loop over the identifiers.\<close>

fun coding_has_npi :: "json list \<Rightarrow> error + bool" where
  "coding_has_npi [] = Inr False"
| "coding_has_npi (code # codes) =
     bind (dict_get code ''code'' JNull) (\<lambda>c.
       if c = JStr ''NPI'' then Inr True else coding_has_npi codes)"

definition identifier_is_npi :: "json \<Rightarrow> error + bool" where
  "identifier_is_npi identifier =
     bind (dict_get identifier ''type'' (JObj [])) (\<lambda>type_info.
     bind (dict_get type_info ''coding'' (JArr [])) (\<lambda>coding.
     bind (py_iter coding) coding_has_npi))"

fun npi_scan :: "json list \<Rightarrow> error + json" where
  "npi_scan [] = Inr (JStr ''0'')"
| "npi_scan (identifier # identifiers) =
     bind (identifier_is_npi identifier) (\<lambda>found.
       if found then dict_get identifier ''value'' (JStr ''0'')
       else npi_scan identifiers)"

definition extract_npi_from_practitioner :: "json \<Rightarrow> error + json" where
  "extract_npi_from_practitioner practitioner_data =
     (if \<not> truthy practitioner_data then Inr (JStr ''0'')
      else bind (dict_get practitioner_data ''identifier'' (JArr [])) (\<lambda>identifiers.
           bind (py_iter identifiers) npi_scan))"

text \<open>\<^verbatim>\<open>extract_practitioner_name\<close>, lines 133-145: the family and the given name.\<close>

definition extract_practitioner_name :: "json \<Rightarrow> error + (json \<times> json)" where
  "extract_practitioner_name practitioner_data =
     (if \<not> truthy practitioner_data then Inr (JStr [], JStr [])
      else bind (dict_get practitioner_data ''name'' (JArr [])) (\<lambda>names.
        if truthy names then
          bind (py_first names) (\<lambda>name.
          bind (dict_get name ''family'' (JStr [])) (\<lambda>family.
          bind (dict_get name ''given'' (JArr [])) (\<lambda>given.
          bind (if truthy given then bind (py_iter given) (join_strs '' '') else Inr [])
            (\<lambda>given_str. Inr (family, JStr given_str)))))
        else Inr (JStr [], JStr [])))"

text \<open>The address text built at lines 167-180 for an organization and at lines 196-212
  for a location, from one address object.\<close>

definition address_string :: "json \<Rightarrow> error + string" where
  "address_string addr =
     bind (dict_get addr ''line'' (JArr [])) (\<lambda>line.
     bind (dict_get addr ''city'' (JStr [])) (\<lambda>city.
     bind (dict_get addr ''state'' (JStr [])) (\<lambda>state.
     bind (dict_get addr ''postalCode'' (JStr [])) (\<lambda>postal.
     bind (if truthy line then py_iter line else Inr []) (\<lambda>lines.
       join_strs '', ''
         (lines @ filter truthy [city] @ filter truthy [state] @ filter truthy [postal]))))))"

text \<open>\<^verbatim>\<open>extract_organization_info\<close>, lines 147-182: name, type and address.\<close>

definition extract_organization_info :: "json \<Rightarrow> error + (json \<times> json \<times> json)" where
  "extract_organization_info org_data =
     (if \<not> truthy org_data then Inr (JStr [], JStr [], JStr [])
      else
        bind (dict_get org_data ''name'' (JStr [])) (\<lambda>name.
        bind (dict_get org_data ''type'' (JArr [])) (\<lambda>types.
        bind (if truthy types then
                bind (py_first types) (\<lambda>t0.
                bind (dict_get t0 ''coding'' (JArr [])) (\<lambda>coding.
                  if truthy coding then
                    bind (py_first coding) (\<lambda>c0.
                    bind (dict_get c0 ''code'' (JStr [])) (\<lambda>code.
                      dict_get c0 ''display'' code))
                  else Inr (JStr [])))
              else Inr (JStr [])) (\<lambda>org_type.
        bind (dict_get org_data ''address'' (JArr [])) (\<lambda>addresses.
        bind (if truthy addresses then
                bind (py_first addresses) (\<lambda>addr. address_string addr)
              else Inr []) (\<lambda>address_str.
          Inr (name, org_type, JStr address_str)))))))"

text \<open>\<^verbatim>\<open>extract_location_info\<close>, lines 184-214: name, status and address.\<close>

definition extract_location_info :: "json \<Rightarrow> error + (json \<times> json \<times> json)" where
  "extract_location_info location_data =
     (if \<not> truthy location_data then Inr (JStr [], JStr [], JStr [])
      else
        bind (dict_get location_data ''name'' (JStr [])) (\<lambda>name.
        bind (dict_get location_data ''status'' (JStr [])) (\<lambda>status.
        bind (dict_get location_data ''address'' (JObj [])) (\<lambda>address.
        bind (address_string address) (\<lambda>address_str.
          Inr (name, status, JStr address_str))))))"

subsection \<open>Reference resolver and cache\<close>

text \<open>
  The state of one payer run inside \<^verbatim>\<open>process_payer\<close>, lines 245-254: the three caches
  (Python dicts, kept as association lists in insertion order; a key is only ever
  inserted when it is absent) and the row lists of the five relationship tables. A row
  is the list of its cells in the order of the table's field names.
\<close>

record crawl =
  organizations :: "(string \<times> json) list"
  locations :: "(string \<times> json) list"
  practitioners :: "(string \<times> json) list"
  org_to_pr_rows :: "json list list"
  location_to_pr_rows :: "json list list"
  p_to_pr_rows :: "json list list"
  spec_to_pr_rows :: "json list list"
  tele_to_pr_rows :: "json list list"

definition empty_crawl :: crawl where
  "empty_crawl = \<lparr>organizations = [], locations = [], practitioners = [],
     org_to_pr_rows = [], location_to_pr_rows = [], p_to_pr_rows = [],
     spec_to_pr_rows = [], tele_to_pr_rows = []\<rparr>"

text \<open>
  The block the script repeats at lines 268-273, 284-289, 300-305 and 327-332: take the
  id after the last slash; fetch only when the id is not in the cache; store only a
  truthy result.
\<close>

definition resolve ::
  "env \<Rightarrow> kind \<Rightarrow> string \<Rightarrow> string \<Rightarrow> (string \<times> json) list \<Rightarrow> world
     \<Rightarrow> (string \<times> json) list \<times> world" where
  "resolve env k base_url ref cache w =
     (let ident = last_segment ref in
      if map_of cache ident \<noteq> None then (cache, w)
      else
        let (data, w1) = fetch_fhir_resource (upstream env) (urljoin env base_url ref) 3 w;
            w2 = w1\<lparr>trace := trace w1 @ [Fetched k ident (truthy data)]\<rparr>
        in (if truthy data then cache @ [(ident, data)] else cache, w2))"

text \<open>\<^verbatim>\<open>ref.startswith(p)\<close> on whatever JSON value the reference field holds, and the
  guarded form \<^verbatim>\<open>ref and ref.startswith(p)\<close>: the reference when it is to be followed.\<close>

fun typed_ref :: "json \<Rightarrow> string \<Rightarrow> error + string option" where
  "typed_ref (JStr s) p = Inr (if startswith s p then Some s else None)"
| "typed_ref _ p = Inl AttributeError"

definition guarded_ref :: "json \<Rightarrow> string \<Rightarrow> error + string option" where
  "guarded_ref j p = (if truthy j then typed_ref j p else Inr None)"

definition role_url :: "env \<Rightarrow> string \<Rightarrow> json \<Rightarrow> json" where
  "role_url env base_url pr_id = JStr (urljoin env base_url (''PractitionerRole/'' @ fmt env pr_id))"

definition network_reference :: string where
  "network_reference =
     ''http://hl7.org/fhir/us/davinci-pdex-plan-net/StructureDefinition/network-reference''"

subsection \<open>One PractitionerRole\<close>

text \<open>Lines 268-279 and 284-295: resolve the organization and add the relationship row.\<close>

definition add_org :: "env \<Rightarrow> string \<Rightarrow> json \<Rightarrow> string \<Rightarrow> crawl \<Rightarrow> world \<Rightarrow> crawl \<times> world" where
  "add_org env base_url pr_id org_ref c w =
     (let (orgs, w1) = resolve env Organization base_url org_ref (organizations c) w in
      (c\<lparr>organizations := orgs,
         org_to_pr_rows := org_to_pr_rows c @
           [[role_url env base_url pr_id, JStr (urljoin env base_url org_ref), JStr org_ref]]\<rparr>,
       w1))"

text \<open>Lines 265-267: the organization reference an extension entry carries, if any.\<close>

definition ext_org_ref :: "json \<Rightarrow> error + string option" where
  "ext_org_ref ext =
     bind (dict_get ext ''url'' JNull) (\<lambda>u.
       if u = JStr network_reference then
         bind (dict_get ext ''valueReference'' (JObj [])) (\<lambda>v.
         bind (dict_get v ''reference'' (JStr [])) (\<lambda>org_ref.
           typed_ref org_ref ''Organization/''))
       else Inr None)"

text \<open>The loop over the extensions, lines 264-279.\<close>

fun ext_loop ::
  "env \<Rightarrow> string \<Rightarrow> json \<Rightarrow> json list \<Rightarrow> crawl \<Rightarrow> world \<Rightarrow> (error \<times> world) + (crawl \<times> world)" where
  "ext_loop env base_url pr_id [] c w = Inr (c, w)"
| "ext_loop env base_url pr_id (ext # extensions) c w =
     (case ext_org_ref ext of
        Inl e \<Rightarrow> Inl (e, w)
      | Inr None \<Rightarrow> ext_loop env base_url pr_id extensions c w
      | Inr (Some org_ref) \<Rightarrow>
          (let (c1, w1) = add_org env base_url pr_id org_ref c w
           in ext_loop env base_url pr_id extensions c1 w1))"

text \<open>The direct organization reference, lines 282-295.\<close>

definition direct_org ::
  "env \<Rightarrow> string \<Rightarrow> json \<Rightarrow> json \<Rightarrow> crawl \<Rightarrow> world \<Rightarrow> (error \<times> world) + (crawl \<times> world)" where
  "direct_org env base_url pr_id pr c w =
     (case bind (dict_get pr ''organization'' (JObj [])) (\<lambda>org.
           bind (dict_get org ''reference'' (JStr [])) (\<lambda>org_ref.
             guarded_ref org_ref ''Organization/'')) of
        Inl e \<Rightarrow> Inl (e, w)
      | Inr None \<Rightarrow> Inr (c, w)
      | Inr (Some org_ref) \<Rightarrow> Inr (add_org env base_url pr_id org_ref c w))"

text \<open>The practitioner reference, lines 298-320.\<close>

definition practitioner_step ::
  "env \<Rightarrow> string \<Rightarrow> json \<Rightarrow> json \<Rightarrow> crawl \<Rightarrow> world \<Rightarrow> (error \<times> world) + (crawl \<times> world)" where
  "practitioner_step env base_url pr_id pr c w =
     (case bind (dict_get pr ''practitioner'' (JObj [])) (\<lambda>p.
           bind (dict_get p ''reference'' (JStr [])) (\<lambda>practitioner_ref.
             guarded_ref practitioner_ref ''Practitioner/'')) of
        Inl e \<Rightarrow> Inl (e, w)
      | Inr None \<Rightarrow> Inr (c, w)
      | Inr (Some practitioner_ref) \<Rightarrow>
          (let (ps, w1) = resolve env Practitioner base_url practitioner_ref (practitioners c) w;
               practitioner_data =
                 (case map_of ps (last_segment practitioner_ref) of
                    None \<Rightarrow> JObj [] | Some d \<Rightarrow> d)
           in case bind (extract_npi_from_practitioner practitioner_data) (\<lambda>npi.
                   bind (extract_practitioner_name practitioner_data) (\<lambda>name_info.
                     Inr [role_url env base_url pr_id,
                          JStr (urljoin env base_url practitioner_ref),
                          JStr practitioner_ref, npi, JStr ''?'',
                          fst name_info, snd name_info])) of
                Inl e \<Rightarrow> Inl (e, w1)
              | Inr row \<Rightarrow>
                  Inr (c\<lparr>practitioners := ps, p_to_pr_rows := p_to_pr_rows c @ [row]\<rparr>, w1)))"

text \<open>The loop over the location references, lines 324-338.\<close>

definition add_location ::
  "env \<Rightarrow> string \<Rightarrow> json \<Rightarrow> string \<Rightarrow> crawl \<Rightarrow> world \<Rightarrow> crawl \<times> world" where
  "add_location env base_url pr_id loc_ref c w =
     (let (locs, w1) = resolve env Location base_url loc_ref (locations c) w in
      (c\<lparr>locations := locs,
         location_to_pr_rows := location_to_pr_rows c @
           [[role_url env base_url pr_id, JStr (urljoin env base_url loc_ref), JStr loc_ref]]\<rparr>,
       w1))"

fun location_loop ::
  "env \<Rightarrow> string \<Rightarrow> json \<Rightarrow> json list \<Rightarrow> crawl \<Rightarrow> world \<Rightarrow> (error \<times> world) + (crawl \<times> world)" where
  "location_loop env base_url pr_id [] c w = Inr (c, w)"
| "location_loop env base_url pr_id (loc_ref_obj # location_refs) c w =
     (case bind (dict_get loc_ref_obj ''reference'' (JStr [])) (\<lambda>loc_ref.
             guarded_ref loc_ref ''Location/'') of
        Inl e \<Rightarrow> Inl (e, w)
      | Inr None \<Rightarrow> location_loop env base_url pr_id location_refs c w
      | Inr (Some loc_ref) \<Rightarrow>
          (let (c1, w1) = add_location env base_url pr_id loc_ref c w
           in location_loop env base_url pr_id location_refs c1 w1))"

text \<open>The specialty rows, lines 342-354, and the telecom rows, lines 358-368.\<close>

fun coding_rows :: "json \<Rightarrow> json list \<Rightarrow> error + json list list" where
  "coding_rows url [] = Inr []"
| "coding_rows url (coding # codings) =
     bind (dict_get coding ''code'' (JStr [])) (\<lambda>code.
     bind (dict_get coding ''display'' (JStr [])) (\<lambda>display.
     bind (dict_get coding ''system'' (JStr [])) (\<lambda>system.
     bind (coding_rows url codings) (\<lambda>rows.
       Inr ([url, code, display, system] # rows)))))"

fun specialty_rows :: "json \<Rightarrow> json list \<Rightarrow> error + json list list" where
  "specialty_rows url [] = Inr []"
| "specialty_rows url (specialty # specialties) =
     bind (dict_get specialty ''coding'' (JArr [])) (\<lambda>codings.
     bind (py_iter codings) (\<lambda>cs.
     bind (coding_rows url cs) (\<lambda>rows.
     bind (specialty_rows url specialties) (\<lambda>more.
       Inr (rows @ more)))))"

fun telecom_rows :: "json \<Rightarrow> json list \<Rightarrow> error + json list list" where
  "telecom_rows url [] = Inr []"
| "telecom_rows url (telecom # telecoms) =
     bind (dict_get telecom ''system'' (JStr [])) (\<lambda>system.
     bind (dict_get telecom ''value'' (JStr [])) (\<lambda>val.
     bind (dict_get telecom ''use'' (JStr [])) (\<lambda>use.
     bind (telecom_rows url telecoms) (\<lambda>rows.
       Inr ([url, system, val, use] # rows)))))"

definition inline_rows :: "env \<Rightarrow> string \<Rightarrow> json \<Rightarrow> json \<Rightarrow> error + (json list list \<times> json list list)" where
  "inline_rows env base_url pr_id pr =
     bind (dict_get pr ''specialty'' (JArr [])) (\<lambda>specialties.
     bind (py_iter specialties) (\<lambda>ss.
     bind (specialty_rows (role_url env base_url pr_id) ss) (\<lambda>spec_rows.
     bind (dict_get pr ''telecom'' (JArr [])) (\<lambda>telecoms.
     bind (py_iter telecoms) (\<lambda>ts.
     bind (telecom_rows (role_url env base_url pr_id) ts) (\<lambda>tele_rows.
       Inr (spec_rows, tele_rows)))))))"

text \<open>The body of the loop over the PractitionerRoles, lines 258-368.\<close>

definition process_role ::
  "env \<Rightarrow> string \<Rightarrow> json \<Rightarrow> crawl \<Rightarrow> world \<Rightarrow> (error \<times> world) + (crawl \<times> world)" where
  "process_role env base_url pr c w =
     (case bind (dict_get pr ''id'' (JStr [])) (\<lambda>pr_id.
           bind (dict_get pr ''extension'' (JArr [])) (\<lambda>extensions.
           bind (py_iter extensions) (\<lambda>exts. Inr (pr_id, exts)))) of
        Inl e \<Rightarrow> Inl (e, w)
      | Inr (pr_id, exts) \<Rightarrow>
          bind (ext_loop env base_url pr_id exts c w) (\<lambda>(c1, w1).
          bind (direct_org env base_url pr_id pr c1 w1) (\<lambda>(c2, w2).
          bind (practitioner_step env base_url pr_id pr c2 w2) (\<lambda>(c3, w3).
          bind (case bind (dict_get pr ''location'' (JArr [])) py_iter of
                  Inl e \<Rightarrow> Inl (e, w3)
                | Inr location_refs \<Rightarrow> location_loop env base_url pr_id location_refs c3 w3)
            (\<lambda>(c4, w4).
          (case inline_rows env base_url pr_id pr of
             Inl e \<Rightarrow> Inl (e, w4)
           | Inr (spec_rows, tele_rows) \<Rightarrow>
               Inr (c4\<lparr>spec_to_pr_rows := spec_to_pr_rows c4 @ spec_rows,
                       tele_to_pr_rows := tele_to_pr_rows c4 @ tele_rows\<rparr>, w4)))))))"

fun roles_loop ::
  "env \<Rightarrow> string \<Rightarrow> json list \<Rightarrow> crawl \<Rightarrow> world \<Rightarrow> (error \<times> world) + (crawl \<times> world)" where
  "roles_loop env base_url [] c w = Inr (c, w)"
| "roles_loop env base_url (pr # practitioner_roles) c w =
     bind (process_role env base_url pr c w) (\<lambda>(c1, w1).
       roles_loop env base_url practitioner_roles c1 w1)"

subsection \<open>Relational writer\<close>

text \<open>
  \<^verbatim>\<open>open(path, 'w')\<close> truncates the file; the header and the rows are written only when
  there is at least one row (\<^verbatim>\<open>if rows:\<close>), so a table without rows is an empty file.
\<close>

definition write_csv :: "string \<Rightarrow> string list \<Rightarrow> json list list \<Rightarrow> world \<Rightarrow> world" where
  "write_csv path fieldnames rows w =
     w\<lparr>files := (files w)(path \<mapsto> (if rows = [] then [] else map JStr fieldnames # rows))\<rparr>"

definition org_to_pr_fields :: "string list" where
  "org_to_pr_fields = [''practitioner_role_fhir_url'', ''organization_fhir_url'', ''organization_reference'']"

definition org_fields :: "string list" where
  "org_fields = [''organization_fhir_url'', ''name'', ''type'', ''address'']"

definition location_to_pr_fields :: "string list" where
  "location_to_pr_fields = [''practitioner_role_fhir_url'', ''location_fhir_url'', ''location_reference'']"

definition location_fields :: "string list" where
  "location_fields = [''location_fhir_url'', ''name'', ''status'', ''address'']"

definition p_to_pr_fields :: "string list" where
  "p_to_pr_fields = [''practitioner_role_fhir_url'', ''practitioner_fhir_url'',
     ''practitioner_reference'', ''npi'', ''is_npi_invalid'', ''family_name'', ''given_name'']"

definition spec_to_pr_fields :: "string list" where
  "spec_to_pr_fields = [''practitioner_role_fhir_url'', ''specialty_code'', ''specialty_display'', ''specialty_system'']"

definition tele_to_pr_fields :: "string list" where
  "tele_to_pr_fields = [''practitioner_role_fhir_url'', ''telecom_system'', ''telecom_value'', ''telecom_use'']"

text \<open>The rows of \<^verbatim>\<open>org.csv\<close>, lines 380-388, and of \<^verbatim>\<open>location.csv\<close>, lines 404-412: one
  row for each item of the cache.\<close>

fun org_table :: "env \<Rightarrow> string \<Rightarrow> (string \<times> json) list \<Rightarrow> error + json list list" where
  "org_table env base_url [] = Inr []"
| "org_table env base_url ((org_id, org_data) # items) =
     bind (extract_organization_info org_data) (\<lambda>org_info.
     bind (org_table env base_url items) (\<lambda>rows.
       Inr ([JStr (urljoin env base_url (''Organization/'' @ org_id)),
             fst org_info, fst (snd org_info), snd (snd org_info)] # rows)))"

fun location_table :: "env \<Rightarrow> string \<Rightarrow> (string \<times> json) list \<Rightarrow> error + json list list" where
  "location_table env base_url [] = Inr []"
| "location_table env base_url ((loc_id, loc_data) # items) =
     bind (extract_location_info loc_data) (\<lambda>loc_info.
     bind (location_table env base_url items) (\<lambda>rows.
       Inr ([JStr (urljoin env base_url (''Location/'' @ loc_id)),
             fst loc_info, fst (snd loc_info), snd (snd loc_info)] # rows)))"

text \<open>Lines 372-439: the seven files, in the order in which the script writes them.\<close>

definition write_tables ::
  "env \<Rightarrow> string \<Rightarrow> string \<Rightarrow> crawl \<Rightarrow> world \<Rightarrow> (error \<times> world) + world" where
  "write_tables env base_url output_dir c w =
     (let w1 = write_csv (output_dir @ ''/org_to_pr.csv'') org_to_pr_fields (org_to_pr_rows c) w in
      case org_table env base_url (organizations c) of
        Inl e \<Rightarrow> Inl (e, w1)
      | Inr org_rows \<Rightarrow>
          (let w2 = write_csv (output_dir @ ''/org.csv'') org_fields org_rows w1;
               w3 = write_csv (output_dir @ ''/location_to_pr.csv'') location_to_pr_fields
                      (location_to_pr_rows c) w2
           in case location_table env base_url (locations c) of
                Inl e \<Rightarrow> Inl (e, w3)
              | Inr location_rows \<Rightarrow>
                  (let w4 = write_csv (output_dir @ ''/location.csv'') location_fields location_rows w3;
                       w5 = write_csv (output_dir @ ''/p_to_pr.csv'') p_to_pr_fields (p_to_pr_rows c) w4;
                       w6 = write_csv (output_dir @ ''/spec_to_pr.csv'') spec_to_pr_fields
                              (spec_to_pr_rows c) w5;
                       w7 = write_csv (output_dir @ ''/tele_to_pr.csv'') tele_to_pr_fields
                              (tele_to_pr_rows c) w6
                   in Inr w7)))"

subsection \<open>One payer, and the orchestrator\<close>

text \<open>
  \<^verbatim>\<open>process_payer\<close>, lines 216-450. A payer is a row of the endpoint table, a
  \<^verbatim>\<open>Dict[str, str]\<close>; a missing column raises KeyError. \<^verbatim>\<open>os.makedirs\<close> creates a
  directory and no file, and the progress lines are not modelled.
\<close>

type_synonym payer = "(string \<times> string) list"

definition output_dir_of :: "bool \<Rightarrow> string \<Rightarrow> string" where
  "output_dir_of test_mode payer_stub =
     (if test_mode then ''payer_slurp_test_results/'' @ payer_stub
      else ''payer_slurp_results/'' @ payer_stub)"

text \<open>The files \<^verbatim>\<open>process_payer\<close> opens for writing, with their field names, in the order
  of lines 372-439.\<close>

definition tables :: "(string \<times> string list) list" where
  "tables =
     [(''org_to_pr.csv'', org_to_pr_fields), (''org.csv'', org_fields),
      (''location_to_pr.csv'', location_to_pr_fields), (''location.csv'', location_fields),
      (''p_to_pr.csv'', p_to_pr_fields), (''spec_to_pr.csv'', spec_to_pr_fields),
      (''tele_to_pr.csv'', tele_to_pr_fields)]"

definition output_paths :: "bool \<Rightarrow> string \<Rightarrow> string list" where
  "output_paths test_mode payer_stub =
     map (\<lambda>t. output_dir_of test_mode payer_stub @ ''/'' @ fst t) tables"

text \<open>The world in which \<^verbatim>\<open>process_payer\<close> ended, by returning or by raising.\<close>

definition end_world :: "(error \<times> world) + world \<Rightarrow> world" where
  "end_world r = (case r of Inl ew \<Rightarrow> snd ew | Inr w \<Rightarrow> w)"

definition process_payer ::
  "nat \<Rightarrow> env \<Rightarrow> payer \<Rightarrow> bool \<Rightarrow> int \<Rightarrow> world \<Rightarrow> ((error \<times> world) + world) option" where
  "process_payer fuel env payer test_mode test_limit w =
     (case map_of payer ''payer_name'' of
        None \<Rightarrow> Some (Inl (KeyError, w))
      | Some payer_name \<Rightarrow>
     (case map_of payer ''payer_stub'' of
        None \<Rightarrow> Some (Inl (KeyError, w))
      | Some payer_stub \<Rightarrow>
     (case map_of payer ''payer_provider_directory_fhir_url'' of
        None \<Rightarrow> Some (Inl (KeyError, w))
      | Some url \<Rightarrow>
          (let base_url = normalize_base url;
               output_dir = output_dir_of test_mode payer_stub
           in case fetch_all_practitioner_roles fuel env base_url test_mode test_limit w of
                None \<Rightarrow> None
              | Some (Inl ew) \<Rightarrow> Some (Inl ew)
              | Some (Inr (practitioner_roles, w1)) \<Rightarrow>
                  if practitioner_roles = [] then Some (Inr w1)
                  else Some (bind (roles_loop env base_url practitioner_roles empty_crawl w1)
                               (\<lambda>(c, w2). write_tables env base_url output_dir c w2))))))"

text \<open>The loop of \<^verbatim>\<open>main\<close>, lines 491-497, over the payers loaded from the endpoint table:
  an exception of \<^verbatim>\<open>process_payer\<close> is caught and printed, and the loop goes on.\<close>

fun main_loop :: "nat \<Rightarrow> env \<Rightarrow> bool \<Rightarrow> int \<Rightarrow> payer list \<Rightarrow> world \<Rightarrow> world option" where
  "main_loop fuel env test_mode test_limit [] w = Some w"
| "main_loop fuel env test_mode test_limit (payer # payers) w =
     (case process_payer fuel env payer test_mode test_limit w of
        None \<Rightarrow> None
      | Some (Inl (e, w1)) \<Rightarrow>
          main_loop fuel env test_mode test_limit payers
            (w1\<lparr>trace := trace w1 @
               [Log_error (case map_of payer ''payer_name'' of None \<Rightarrow> ''unknown'' | Some n \<Rightarrow> n) e]\<rparr>)
      | Some (Inr w1) \<Rightarrow> main_loop fuel env test_mode test_limit payers w1)"

subsection \<open>Concrete inputs\<close>

text \<open>
  The inputs at which the theorems below are evaluated. URLs are joined by
  concatenation, which is what \<^verbatim>\<open>urljoin\<close> does for a base ending in a slash and a
  relative reference without dot segments.
\<close>

definition blank_world :: world where
  "blank_world = \<lparr>trace = [], reqs = 0, files = Map.empty\<rparr>"

definition cat_env :: "server \<Rightarrow> env" where
  "cat_env srv = \<lparr>urljoin = (\<lambda>b r. b @ r), pystr = (\<lambda>j. ''?''), upstream = srv\<rparr>"

text \<open>A server that fails the first two requests of the run and answers from the third on.\<close>

definition flaky_server :: server where
  "flaky_server n u = (if n < 2 then Failed else Body (JObj [(''id'', JStr ''1'')]))"



text \<open>A server that is down, a payer, and a world that holds the output of an earlier
  run for that payer.\<close>

definition dead_server :: server where
  "dead_server n u = Failed"

definition payer_a :: payer where
  "payer_a = [(''payer_name'', ''A''), (''payer_stub'', ''a''),
              (''payer_provider_directory_fhir_url'', ''http://a'')]"

definition earlier_rows :: csv where
  "earlier_rows = [map JStr tele_to_pr_fields,
                   [JStr ''http://a/PractitionerRole/r0'', JStr ''phone'', JStr ''555'', JStr ''work'']]"

definition earlier_world :: world where
  "earlier_world = \<lparr>trace = [], reqs = 0,
     files = [''payer_slurp_results/a/tele_to_pr.csv'' \<mapsto> earlier_rows]\<rparr>"

text \<open>A bundle with the given resources as entries and no next link, and a server that
  answers the first page of payer \<open>a\<close> with it and fails every other request.\<close>

definition bundle_of :: "json list \<Rightarrow> json" where
  "bundle_of rs = JObj [(''resourceType'', JStr ''Bundle''),
                        (''entry'', JArr (map (\<lambda>r. JObj [(''resource'', r)]) rs))]"

definition page_server :: "json list \<Rightarrow> server" where
  "page_server rs n u =
     (if u = ''http://a/PractitionerRole?_count=100'' then Body (bundle_of rs) else Failed)"

text \<open>A PractitionerRole that references nothing.\<close>

definition plain_role :: "string \<Rightarrow> json" where
  "plain_role i = JObj [(''resourceType'', JStr ''PractitionerRole''), (''id'', JStr i)]"

text \<open>Two more payers. The server answers the first page of payer \<open>b\<close> with a role whose
  extension field is a number, which cannot be iterated, and the first page of payer
  \<open>c\<close> with a role that has one telecom entry.\<close>

definition payer_b :: payer where
  "payer_b = [(''payer_name'', ''B''), (''payer_stub'', ''b''),
              (''payer_provider_directory_fhir_url'', ''http://b'')]"

definition payer_c :: payer where
  "payer_c = [(''payer_name'', ''C''), (''payer_stub'', ''c''),
              (''payer_provider_directory_fhir_url'', ''http://c'')]"

definition broken_role :: json where
  "broken_role = JObj [(''resourceType'', JStr ''PractitionerRole''), (''id'', JStr ''r2''),
                       (''extension'', JNum 5)]"

definition phone_role :: json where
  "phone_role = JObj [(''resourceType'', JStr ''PractitionerRole''), (''id'', JStr ''r3''),
     (''telecom'', JArr [JObj [(''system'', JStr ''phone''), (''value'', JStr ''777'')]])]"

definition bc_server :: server where
  "bc_server n u =
     (if u = ''http://b/PractitionerRole?_count=100'' then Body (bundle_of [broken_role])
      else if u = ''http://c/PractitionerRole?_count=100'' then Body (bundle_of [phone_role])
      else Failed)"

text \<open>A server with a transient failure: it fails the first three requests of the run and
  answers every later one.\<close>

definition late_server :: server where
  "late_server n u = (if n < 3 then Failed else Body (JObj [(''id'', JStr ''7'')]))"

text \<open>
  The shape FHIR gives a practitioner: an object whose \<^verbatim>\<open>identifier\<close> member, when present,
  is a list; each identifier an object whose \<^verbatim>\<open>type\<close>, when present, is an object whose
  \<^verbatim>\<open>coding\<close>, when present, is a list of objects. \<open>identifiers\<close> and \<open>codings\<close> read these
  lists (an absent member is an empty list) and are \<open>None\<close> on any other shape;
  \<open>value_of\<close> is the \<^verbatim>\<open>value\<close> member of an identifier, whatever it holds.
\<close>

fun objects :: "json list \<Rightarrow> (string \<times> json) list list option" where
  "objects [] = Some []"
| "objects (JObj kvs # xs) = map_option ((#) kvs) (objects xs)"
| "objects (_ # xs) = None"

definition identifiers :: "json \<Rightarrow> json list option" where
  "identifiers data =
     (case data of
        JObj kvs \<Rightarrow>
          (case map_of kvs ''identifier'' of
             None \<Rightarrow> Some [] | Some (JArr xs) \<Rightarrow> Some xs | Some _ \<Rightarrow> None)
      | _ \<Rightarrow> None)"

definition codings :: "json \<Rightarrow> (string \<times> json) list list option" where
  "codings identifier =
     (case identifier of
        JObj ikvs \<Rightarrow>
          (case map_of ikvs ''type'' of
             None \<Rightarrow> Some []
           | Some (JObj tkvs) \<Rightarrow>
               (case map_of tkvs ''coding'' of
                  None \<Rightarrow> Some [] | Some (JArr cs) \<Rightarrow> objects cs | Some _ \<Rightarrow> None)
           | Some _ \<Rightarrow> None)
      | _ \<Rightarrow> None)"



text \<open>
  The PractitionerRoles among the entries of a page, in page order, for entries of the
  FHIR shape: an entry is an object whose \<^verbatim>\<open>resource\<close> member, when present, is an object.
  \<open>None\<close> on any other shape.
\<close>

fun page_roles :: "json list \<Rightarrow> json list option" where
  "page_roles [] = Some []"
| "page_roles (JObj ekvs # es) =
     (case (case map_of ekvs ''resource'' of None \<Rightarrow> JObj [] | Some r \<Rightarrow> r) of
        JObj rkvs \<Rightarrow>
          map_option
            (\<lambda>rs. if map_of rkvs ''resourceType'' = Some (JStr ''PractitionerRole'')
                  then JObj rkvs # rs else rs)
            (page_roles es)
      | _ \<Rightarrow> None)"
| "page_roles (_ # es) = None"

text \<open>A directory of two pages: the first holds two PractitionerRoles around an
  Organization and links to the second, which holds three PractitionerRoles.\<close>

definition first_page :: json where
  "first_page = JObj [(''resourceType'', JStr ''Bundle''),
     (''entry'', JArr [JObj [(''resource'', plain_role ''r1'')],
                       JObj [(''resource'', JObj [(''resourceType'', JStr ''Organization'')])],
                       JObj [(''resource'', plain_role ''r2'')]]),
     (''link'', JArr [JObj [(''relation'', JStr ''self''), (''url'', JStr ''http://a/page1'')],
                      JObj [(''relation'', JStr ''next''), (''url'', JStr ''http://a/page2'')]])]"

definition two_page_server :: server where
  "two_page_server n u =
     (if u = ''http://a/page1'' then Body first_page
      else if u = ''http://a/page2''
      then Body (bundle_of [plain_role ''r3'', plain_role ''r4'', plain_role ''r5''])
      else Failed)"

section \<open>Properties\<close>

subsection \<open>Resource Fetcher: retries and backoff\<close>

lemma attempts_trace_Suc:
  "0 < n \<Longrightarrow>
   attempts_trace url a (Suc n) = Get url # Sleep (2 ^ a) # attempts_trace url (Suc a) n"
  by (cases n) simp_all

lemma fetch_attempts_trace:
  "int (a + k) = m \<Longrightarrow> fetch_attempts srv url m k a w = (r, w') \<Longrightarrow>
   \<exists>n. n \<le> k \<and> (0 < k \<longrightarrow> 0 < n) \<and> reqs w' = reqs w + n \<and>
       trace w' = trace w @ attempts_trace url a n \<and> files w' = files w"
proof (induction k arbitrary: a w)
  case 0
  then show ?case by auto
next
  case (Suc k)
  show ?case
  proof (cases "srv (reqs w) url")
    case (Body j)
    with Suc.prems have "reqs w' = reqs w + 1"
      "trace w' = trace w @ attempts_trace url a 1" "files w' = files w"
      by (auto simp: Let_def)
    then show ?thesis by (intro exI[of _ 1]) simp
  next
    case Failed
    show ?thesis
    proof (cases "int a < m - 1")
      case False
      with Failed Suc.prems have "reqs w' = reqs w + 1"
        "trace w' = trace w @ attempts_trace url a 1" "files w' = files w"
        by (auto simp: Let_def)
      then show ?thesis by (intro exI[of _ 1]) simp
    next
      case True
      let ?w2 = "w\<lparr>reqs := Suc (reqs w), trace := trace w @ [Get url, Sleep (2 ^ a)]\<rparr>"
      from True Failed Suc.prems have run: "fetch_attempts srv url m k (Suc a) ?w2 = (r, w')"
        by (simp add: Let_def)
      from Suc.prems have "int (Suc a + k) = m" by simp
      from Suc.IH[OF this run] obtain n where n: "n \<le> k" "0 < k \<longrightarrow> 0 < n"
        "reqs w' = Suc (reqs w) + n"
        "trace w' = trace w @ [Get url, Sleep (2 ^ a)] @ attempts_trace url (Suc a) n"
        "files w' = files w"
        by auto
      from True Suc.prems have "0 < k" by auto
      with n have "0 < n" by simp
      with n show ?thesis
        by (intro exI[of _ "Suc n"]) (simp add: attempts_trace_Suc)
    qed
  qed
qed

lemma fetch_fhir_resource_effect:
  assumes "fetch_fhir_resource srv url m w = (r, w')"
  shows "reqs w \<le> reqs w' \<and> reqs w' - reqs w \<le> nat m \<and>
         trace w' = trace w @ attempts_trace url 0 (reqs w' - reqs w) \<and> files w' = files w"
proof (cases "0 \<le> m")
  case True
  then have "int (0 + nat m) = m" by simp
  from fetch_attempts_trace[OF this assms[unfolded fetch_fhir_resource_def]]
  show ?thesis by auto
next
  case False
  with assms show ?thesis by (auto simp: fetch_fhir_resource_def)
qed

lemma fetch_fhir_resource_files [simp]:
  "files (snd (fetch_fhir_resource srv url m w)) = files w"
  using fetch_fhir_resource_effect[of srv url m w] by (cases "fetch_fhir_resource srv url m w") simp

text \<open>
  Claim C5. A call of \<^verbatim>\<open>fetch_fhir_resource\<close> issues at most \<open>max_retries\<close> requests, and
  its trace is exactly the requests with a sleep of \<open>2 ^ attempt\<close> seconds (attempt
  counted from 0) between two consecutive ones: nothing else, no jitter. With the
  default of 3, a fetch that fails twice and then succeeds issues three requests, sleeps
  1 and then 2 seconds, and returns the body of the third.
\<close>

theorem fetch_fhir_resource_retry_backoff:
  "(let (r, w') = fetch_fhir_resource srv url max_retries w; n = reqs w' - reqs w in
      reqs w \<le> reqs w' \<and> n \<le> nat max_retries \<and> trace w' = trace w @ attempts_trace url 0 n)
   \<and> (srv (reqs w) url = Failed \<longrightarrow> srv (Suc (reqs w)) url = Failed \<longrightarrow>
        srv (Suc (Suc (reqs w))) url = Body j \<longrightarrow>
        fetch_fhir_resource srv url 3 w =
          (j, w\<lparr>trace := trace w @ [Get url, Sleep 1, Get url, Sleep 2, Get url],
                reqs := reqs w + 3\<rparr>))"
proof (intro conjI impI)
  show "let (r, w') = fetch_fhir_resource srv url max_retries w; n = reqs w' - reqs w in
      reqs w \<le> reqs w' \<and> n \<le> nat max_retries \<and> trace w' = trace w @ attempts_trace url 0 n"
    using fetch_fhir_resource_effect[of srv url max_retries w]
    by (cases "fetch_fhir_resource srv url max_retries w") (simp add: Let_def)
next
  assume "srv (reqs w) url = Failed" "srv (Suc (reqs w)) url = Failed"
    "srv (Suc (Suc (reqs w))) url = Body j"
  then show "fetch_fhir_resource srv url 3 w =
      (j, w\<lparr>trace := trace w @ [Get url, Sleep 1, Get url, Sleep 2, Get url],
            reqs := reqs w + 3\<rparr>)"
    by (simp add: fetch_fhir_resource_def eval_nat_numeral Let_def)
qed

theorem fetch_fhir_resource_retry_backoff_witness:
  "fetch_fhir_resource flaky_server ''http://a/Organization/1'' 3 blank_world =
     (JObj [(''id'', JStr ''1'')],
      \<lparr>trace = [Get ''http://a/Organization/1'', Sleep 1, Get ''http://a/Organization/1'',
                Sleep 2, Get ''http://a/Organization/1''],
       reqs = 3, files = Map.empty\<rparr>)"
  using fetch_fhir_resource_retry_backoff
    [of flaky_server "''http://a/Organization/1''" 3 blank_world "JObj [(''id'', JStr ''1'')]"]
  by (simp add: flaky_server_def blank_world_def)

subsection \<open>Field extractors: the NPI\<close>











subsection \<open>What the crawl does to the world\<close>

text \<open>Fetching and resolving touch the trace and the request counter only; the files
  change nowhere but in \<open>write_csv\<close>.\<close>

lemma world_of_simps [simp]:
  "world_of (Inl (e, w)) = w" "world_of (Inr (x, w)) = w"
  by (simp_all add: world_of_def)

lemma resolve_files [simp]:
  "files (snd (resolve env k base_url ref cache w)) = files w"
  by (simp add: resolve_def Let_def split: prod.splits)
     (metis fetch_fhir_resource_files snd_conv)

lemma add_org_files [simp]:
  "files (snd (add_org env base_url pr_id org_ref c w)) = files w"
  by (simp add: add_org_def split: prod.splits) (metis resolve_files snd_conv)

lemma add_location_files [simp]:
  "files (snd (add_location env base_url pr_id loc_ref c w)) = files w"
  by (simp add: add_location_def split: prod.splits) (metis resolve_files snd_conv)

lemma ext_loop_files [simp]:
  "files (world_of (ext_loop env base_url pr_id exts c w)) = files w"
proof (induction exts arbitrary: c w)
  case Nil
  show ?case by simp
next
  case (Cons ext exts)
  show ?case
  proof (cases "ext_org_ref ext")
    case (Inl e)
    then show ?thesis by simp
  next
    case (Inr r)
    show ?thesis
    proof (cases r)
      case None
      with Inr Cons.IH show ?thesis by simp
    next
      case (Some org_ref)
      obtain c1 w1 where a: "add_org env base_url pr_id org_ref c w = (c1, w1)"
        by (cases "add_org env base_url pr_id org_ref c w")
      then have "files w1 = files w"
        using add_org_files[of env base_url pr_id org_ref c w] by simp
      with Inr Some a Cons.IH[of c1 w1] show ?thesis by simp
    qed
  qed
qed

lemma direct_org_files [simp]:
  "files (world_of (direct_org env base_url pr_id pr c w)) = files w"
proof -
  have "files (world_of (Inr (add_org env base_url pr_id r c w) :: (error \<times> world) + (crawl \<times> world))) = files w" for r
    using add_org_files[of env base_url pr_id r c w]
    by (cases "add_org env base_url pr_id r c w") simp
  then show ?thesis
    by (simp add: direct_org_def split: sum.splits option.splits)
qed

lemma practitioner_step_files [simp]:
  "files (world_of (practitioner_step env base_url pr_id pr c w)) = files w"
proof -
  have "files w1 = files w" if "resolve env Practitioner base_url r (practitioners c) w = (ps, w1)"
    for r ps w1
    using resolve_files[of env Practitioner base_url r "practitioners c" w] that by simp
  then show ?thesis
    by (auto simp: practitioner_step_def Let_def split: sum.splits option.splits prod.splits)
qed

lemma location_loop_files [simp]:
  "files (world_of (location_loop env base_url pr_id refs c w)) = files w"
proof (induction refs arbitrary: c w)
  case Nil
  show ?case by simp
next
  case (Cons obj refs)
  let ?r = "bind (dict_get obj ''reference'' (JStr [])) (\<lambda>loc_ref. guarded_ref loc_ref ''Location/'')"
  show ?case
  proof (cases ?r)
    case (Inl e)
    then show ?thesis by simp
  next
    case (Inr r)
    show ?thesis
    proof (cases r)
      case None
      with Inr Cons.IH show ?thesis by simp
    next
      case (Some loc_ref)
      obtain c1 w1 where a: "add_location env base_url pr_id loc_ref c w = (c1, w1)"
        by (cases "add_location env base_url pr_id loc_ref c w")
      then have "files w1 = files w"
        using add_location_files[of env base_url pr_id loc_ref c w] by simp
      with Inr Some a Cons.IH[of c1 w1] show ?thesis by simp
    qed
  qed
qed

lemma bind_world_files:
  assumes "files (world_of m) = fs"
    and "\<And>c1 w1. files w1 = fs \<Longrightarrow> files (world_of (f (c1, w1))) = fs"
  shows "files (world_of (bind m f)) = fs"
  using assms by (cases m) (auto simp: bind_def)

lemma process_role_files [simp]:
  "files (world_of (process_role env base_url pr c w)) = files w"
proof (cases "bind (dict_get pr ''id'' (JStr [])) (\<lambda>pr_id.
           bind (dict_get pr ''extension'' (JArr [])) (\<lambda>extensions.
           bind (py_iter extensions) (\<lambda>exts. Inr (pr_id, exts))))")
  case (Inl e)
  then show ?thesis by (simp add: process_role_def)
next
  case (Inr pe)
  obtain pr_id exts where pe: "pe = (pr_id, exts)" by (cases pe)
  have "files (world_of
     (bind (ext_loop env base_url pr_id exts c w) (\<lambda>(c1, w1).
      bind (direct_org env base_url pr_id pr c1 w1) (\<lambda>(c2, w2).
      bind (practitioner_step env base_url pr_id pr c2 w2) (\<lambda>(c3, w3).
      bind (case bind (dict_get pr ''location'' (JArr [])) py_iter of
              Inl e \<Rightarrow> Inl (e, w3)
            | Inr location_refs \<Rightarrow> location_loop env base_url pr_id location_refs c3 w3)
        (\<lambda>(c4, w4).
      (case inline_rows env base_url pr_id pr of
         Inl e \<Rightarrow> Inl (e, w4)
       | Inr (spec_rows, tele_rows) \<Rightarrow>
           Inr (c4\<lparr>spec_to_pr_rows := spec_to_pr_rows c4 @ spec_rows,
                   tele_to_pr_rows := tele_to_pr_rows c4 @ tele_rows\<rparr>, w4)))))))) = files w"
    apply (rule bind_world_files, simp)
    apply (simp, rule bind_world_files, simp)
    apply (simp, rule bind_world_files, simp)
    apply (simp, rule bind_world_files)
     apply (simp split: sum.splits)
    apply (simp split: sum.splits prod.splits)
    done
  with Inr pe show ?thesis by (simp add: process_role_def)
qed

lemma roles_loop_files [simp]:
  "files (world_of (roles_loop env base_url roles c w)) = files w"
proof (induction roles arbitrary: c w)
  case Nil
  show ?case by simp
next
  case (Cons pr roles)
  show ?case
    by (simp, rule bind_world_files, simp) (simp add: Cons.IH)
qed

lemma pages_loop_files:
  "pages_loop fuel env test_mode test_limit next_url acc w = Some r \<Longrightarrow>
   files (world_of r) = files w"
proof (induction fuel arbitrary: next_url acc w)
  case 0
  then show ?case by simp
next
  case (Suc fuel)
  obtain page w1 where f: "fetch_fhir_resource (upstream env) (fmt env next_url) 3 w = (page, w1)"
    by (cases "fetch_fhir_resource (upstream env) (fmt env next_url) 3 w")
  then have w1: "files w1 = files w"
    using fetch_fhir_resource_files[of "upstream env" "fmt env next_url" 3 w] by simp
  from Suc.prems f w1 show ?case
    by (auto split: if_splits sum.splits dest: Suc.IH)
qed

lemma fetch_all_practitioner_roles_files:
  "fetch_all_practitioner_roles fuel env base_url test_mode test_limit w = Some r \<Longrightarrow>
   files (world_of r) = files w"
  unfolding fetch_all_practitioner_roles_def by (rule pages_loop_files)

subsection \<open>Resource Fetcher: exhausted retries\<close>

text \<open>The attempts of one call are the requests \<open>reqs w\<close>, \<open>reqs w + 1\<close>, ... of the run.\<close>

lemma fetch_attempts_all_failed:
  "\<forall>i < k. srv (reqs w + i) url = Failed \<Longrightarrow> fst (fetch_attempts srv url m k a w) = JNull"
proof (induction k arbitrary: a w)
  case 0
  show ?case by simp
next
  case (Suc k)
  from Suc.prems have first: "srv (reqs w) url = Failed"
    by (metis add.right_neutral zero_less_Suc)
  let ?w = "w\<lparr>trace := trace w @ [Get url], reqs := Suc (reqs w), trace := (trace w @ [Get url]) @ [Sleep (2 ^ a)]\<rparr>"
  have "\<forall>i < k. srv (reqs ?w + i) url = Failed"
  proof (intro allI impI)
    fix i assume "i < k"
    then have "Suc i < Suc k" by simp
    with Suc.prems have "srv (reqs w + Suc i) url = Failed" by blast
    then show "srv (reqs ?w + i) url = Failed" by simp
  qed
  then have "fst (fetch_attempts srv url m k (Suc a) ?w) = JNull"
    by (rule Suc.IH)
  with first show ?case by (simp add: Let_def)
qed

lemma fetch_fhir_resource_all_failed:
  "\<forall>i < nat m. srv (reqs w + i) url = Failed \<Longrightarrow> fst (fetch_fhir_resource srv url m w) = JNull"
  by (simp add: fetch_fhir_resource_def fetch_attempts_all_failed)

text \<open>
  Claim C6. When every attempt of a call fails, \<^verbatim>\<open>fetch_fhir_resource\<close> returns \<^verbatim>\<open>None\<close>
  (the model's result type has no exception: the only exception the body can raise is
  the \<^verbatim>\<open>RequestException\<close> it catches); what the server does at any other request of
  the run does not matter. The callers, which fetch with three attempts, go on: the
  resolver leaves its cache as it was, the practitioner step writes its row with the NPI
  sentinel and empty names, and the paginator returns the entries accumulated so far.
\<close>

theorem fetch_fhir_resource_exhausted_is_absent:
  "((\<forall>i < nat max_retries. upstream env (reqs w + i) url = Failed) \<longrightarrow>
      fst (fetch_fhir_resource (upstream env) url max_retries w) = JNull)
   \<and> ((\<forall>i < 3. upstream env (reqs w + i) url = Failed) \<longrightarrow>
      (urljoin env base_url ref = url \<longrightarrow>
         fst (resolve env k base_url ref cache w) = cache)
      \<and> (urljoin env base_url ref = url \<longrightarrow> startswith ref ''Practitioner/'' \<longrightarrow> ref \<noteq> [] \<longrightarrow>
         map_of (practitioners c) (last_segment ref) = None \<longrightarrow>
         practitioner_step env base_url pr_id
             (JObj [(''practitioner'', JObj [(''reference'', JStr ref)])]) c w =
           Inr (c\<lparr>p_to_pr_rows := p_to_pr_rows c @
                    [[role_url env base_url pr_id, JStr url, JStr ref, JStr ''0'', JStr ''?'',
                      JStr [], JStr []]]\<rparr>,
                snd (resolve env Practitioner base_url ref (practitioners c) w)))
      \<and> (url \<noteq> [] \<longrightarrow>
         pages_loop (Suc fuel) env test_mode test_limit (JStr url) all_entries w =
           Some (Inr (all_entries, snd (fetch_fhir_resource (upstream env) url 3 w)))))"
proof (intro conjI impI)
  assume "\<forall>i < nat max_retries. upstream env (reqs w + i) url = Failed"
  then show "fst (fetch_fhir_resource (upstream env) url max_retries w) = JNull"
    by (rule fetch_fhir_resource_all_failed)
next
  assume "\<forall>i < 3. upstream env (reqs w + i) url = Failed"
  then have absent: "fst (fetch_fhir_resource (upstream env) url 3 w) = JNull"
    by (intro fetch_fhir_resource_all_failed) simp
  show "fst (resolve env k base_url ref cache w) = cache" if "urljoin env base_url ref = url"
    using that absent
    by (cases "fetch_fhir_resource (upstream env) url 3 w")
       (simp add: resolve_def Let_def)
  show "practitioner_step env base_url pr_id
             (JObj [(''practitioner'', JObj [(''reference'', JStr ref)])]) c w =
           Inr (c\<lparr>p_to_pr_rows := p_to_pr_rows c @
                    [[role_url env base_url pr_id, JStr url, JStr ref, JStr ''0'', JStr ''?'',
                      JStr [], JStr []]]\<rparr>,
                snd (resolve env Practitioner base_url ref (practitioners c) w))"
    if "urljoin env base_url ref = url" "startswith ref ''Practitioner/''" "ref \<noteq> []"
      "map_of (practitioners c) (last_segment ref) = None"
    using that absent
    by (cases "fetch_fhir_resource (upstream env) url 3 w")
       (simp add: practitioner_step_def bind_def guarded_ref_def resolve_def Let_def
          extract_npi_from_practitioner_def extract_practitioner_name_def)
  show "pages_loop (Suc fuel) env test_mode test_limit (JStr url) all_entries w =
           Some (Inr (all_entries, snd (fetch_fhir_resource (upstream env) url 3 w)))"
    if "url \<noteq> []"
    using that absent
    by (cases "fetch_fhir_resource (upstream env) url 3 w") (simp add: fmt_def)
qed

text \<open>The witness is a transient failure: the three attempts of the call fail, and the
  server would have answered the next request.\<close>

theorem fetch_fhir_resource_exhausted_is_absent_witness:
  "fetch_fhir_resource late_server ''http://a/Practitioner/7'' 3 blank_world =
     (JNull, \<lparr>trace = [Get ''http://a/Practitioner/7'', Sleep 1, Get ''http://a/Practitioner/7'',
                        Sleep 2, Get ''http://a/Practitioner/7''],
              reqs = 3, files = Map.empty\<rparr>)
   \<and> late_server 3 ''http://a/Practitioner/7'' = Body (JObj [(''id'', JStr ''7'')])
   \<and> fst (resolve (cat_env late_server) Practitioner ''http://a/'' ''Practitioner/7'' [] blank_world) = []
   \<and> (\<exists>w. practitioner_step (cat_env late_server) ''http://a/'' (JStr ''r1'')
        (JObj [(''practitioner'', JObj [(''reference'', JStr ''Practitioner/7'')])])
        empty_crawl blank_world =
       Inr (empty_crawl\<lparr>p_to_pr_rows :=
              [[JStr ''http://a/PractitionerRole/r1'', JStr ''http://a/Practitioner/7'',
                JStr ''Practitioner/7'', JStr ''0'', JStr ''?'', JStr [], JStr []]]\<rparr>, w))
   \<and> (\<exists>w. pages_loop 1 (cat_env late_server) False 100 (JStr ''http://a/Practitioner/7'') []
            blank_world = Some (Inr ([], w)))"
proof -
  have failing: "\<forall>i < 3. upstream (cat_env late_server) (reqs blank_world + i) ''http://a/Practitioner/7'' = Failed"
    by (simp add: cat_env_def late_server_def blank_world_def)
  then have failing': "\<forall>i < nat 3. upstream (cat_env late_server) (reqs blank_world + i) ''http://a/Practitioner/7'' = Failed"
    by simp
  note inst = fetch_fhir_resource_exhausted_is_absent[
      where max_retries = 3 and env = "cat_env late_server" and url = "''http://a/Practitioner/7''"
        and w = blank_world and base_url = "''http://a/''"
        and ref = "''Practitioner/7''" and k = Practitioner and cache = "[]"
        and c = empty_crawl and pr_id = "JStr ''r1''" and fuel = 0 and test_mode = False
        and test_limit = 100 and all_entries = "[]"]
  have run: "fetch_fhir_resource late_server ''http://a/Practitioner/7'' 3 blank_world =
     (JNull, \<lparr>trace = [Get ''http://a/Practitioner/7'', Sleep 1, Get ''http://a/Practitioner/7'',
                        Sleep 2, Get ''http://a/Practitioner/7''],
              reqs = 3, files = Map.empty\<rparr>)"
    by (simp add: fetch_fhir_resource_def late_server_def blank_world_def eval_nat_numeral Let_def)
  have answer: "late_server 3 ''http://a/Practitioner/7'' = Body (JObj [(''id'', JStr ''7'')])"
    by (simp add: late_server_def)
  have j: "urljoin (cat_env late_server) ''http://a/'' ''Practitioner/7'' = ''http://a/Practitioner/7''"
    by (simp add: cat_env_def)
  have s: "startswith ''Practitioner/7'' ''Practitioner/''"
    by (simp add: startswith_def)
  have m: "map_of (practitioners empty_crawl) (last_segment ''Practitioner/7'') = None"
    by (simp add: empty_crawl_def)
  from inst[THEN conjunct2, THEN mp, OF failing]
  have callers: "fst (resolve (cat_env late_server) Practitioner ''http://a/'' ''Practitioner/7'' [] blank_world) = []"
    "practitioner_step (cat_env late_server) ''http://a/'' (JStr ''r1'')
        (JObj [(''practitioner'', JObj [(''reference'', JStr ''Practitioner/7'')])])
        empty_crawl blank_world =
       Inr (empty_crawl\<lparr>p_to_pr_rows := p_to_pr_rows empty_crawl @
              [[role_url (cat_env late_server) ''http://a/'' (JStr ''r1''), JStr ''http://a/Practitioner/7'',
                JStr ''Practitioner/7'', JStr ''0'', JStr ''?'', JStr [], JStr []]]\<rparr>,
            snd (resolve (cat_env late_server) Practitioner ''http://a/'' ''Practitioner/7''
                   (practitioners empty_crawl) blank_world))"
    "pages_loop (Suc 0) (cat_env late_server) False 100 (JStr ''http://a/Practitioner/7'') [] blank_world =
       Some (Inr ([], snd (fetch_fhir_resource (upstream (cat_env late_server)) ''http://a/Practitioner/7'' 3 blank_world)))"
    using j s m by simp_all
  from callers(2) have step: "\<exists>w. practitioner_step (cat_env late_server) ''http://a/'' (JStr ''r1'')
        (JObj [(''practitioner'', JObj [(''reference'', JStr ''Practitioner/7'')])])
        empty_crawl blank_world =
       Inr (empty_crawl\<lparr>p_to_pr_rows :=
              [[JStr ''http://a/PractitionerRole/r1'', JStr ''http://a/Practitioner/7'',
                JStr ''Practitioner/7'', JStr ''0'', JStr ''?'', JStr [], JStr []]]\<rparr>, w)"
    by (simp add: role_url_def fmt_def cat_env_def empty_crawl_def)
  from callers(3) have pages: "\<exists>w. pages_loop 1 (cat_env late_server) False 100
      (JStr ''http://a/Practitioner/7'') [] blank_world = Some (Inr ([], w))"
    by simp
  from run answer callers(1) step pages show ?thesis by simp
qed

subsection \<open>A crawl without PractitionerRoles\<close>

text \<open>
  Claim C10. When the crawl of a payer yields no PractitionerRole, \<^verbatim>\<open>process_payer\<close> returns
  at line 242 before any file is opened: the run ends without an exception and every file
  is what it was before. The crawl yields none, in particular, when the fetch of the
  first page returns an absent (or empty) result.
\<close>

theorem process_payer_without_roles_writes_nothing:
  assumes "map_of payer ''payer_name'' = Some payer_name"
    and "map_of payer ''payer_stub'' = Some payer_stub"
    and "map_of payer ''payer_provider_directory_fhir_url'' = Some url"
  shows "(fetch_all_practitioner_roles fuel env (normalize_base url) test_mode test_limit w =
            Some (Inr ([], w1)) \<longrightarrow>
          process_payer fuel env payer test_mode test_limit w = Some (Inr w1)
          \<and> files w1 = files w)
    \<and> (\<not> truthy (fst (fetch_fhir_resource (upstream env)
             (urljoin env (normalize_base (normalize_base url)) ''PractitionerRole?_count=100'') 3 w)) \<longrightarrow>
          urljoin env (normalize_base (normalize_base url)) ''PractitionerRole?_count=100'' \<noteq> [] \<longrightarrow>
          (\<exists>w1. process_payer (Suc fuel) env payer test_mode test_limit w = Some (Inr w1)
             \<and> files w1 = files w))"
proof (intro conjI impI)
  assume crawl: "fetch_all_practitioner_roles fuel env (normalize_base url) test_mode test_limit w =
            Some (Inr ([], w1))"
  with assms show "process_payer fuel env payer test_mode test_limit w = Some (Inr w1)"
    by (simp add: process_payer_def)
  from fetch_all_practitioner_roles_files[OF crawl] show "files w1 = files w" by simp
next
  let ?u = "urljoin env (normalize_base (normalize_base url)) ''PractitionerRole?_count=100''"
  assume absent: "\<not> truthy (fst (fetch_fhir_resource (upstream env) ?u 3 w))" and u: "?u \<noteq> []"
  obtain page w1 where f: "fetch_fhir_resource (upstream env) ?u 3 w = (page, w1)"
    by (cases "fetch_fhir_resource (upstream env) ?u 3 w")
  with absent u have crawl:
    "fetch_all_practitioner_roles (Suc fuel) env (normalize_base url) test_mode test_limit w =
       Some (Inr ([], w1))"
    by (simp add: fetch_all_practitioner_roles_def fmt_def)
  with assms have "process_payer (Suc fuel) env payer test_mode test_limit w = Some (Inr w1)"
    by (simp add: process_payer_def)
  moreover from fetch_all_practitioner_roles_files[OF crawl] have "files w1 = files w" by simp
  ultimately show "\<exists>w1. process_payer (Suc fuel) env payer test_mode test_limit w = Some (Inr w1)
             \<and> files w1 = files w"
    by blast
qed

lemma first_page_of_payer_a [simp]:
  "urljoin (cat_env srv) (normalize_base (normalize_base ''http://a'')) ''PractitionerRole?_count=100''
     = ''http://a/PractitionerRole?_count=100''"
  by (simp add: cat_env_def normalize_base_def endswith_def)

lemma crawl_of_empty_page:
  "fetch_all_practitioner_roles 2 (cat_env (page_server [])) (normalize_base ''http://a'') False 100
     earlier_world =
   Some (Inr ([], earlier_world\<lparr>trace := [Get ''http://a/PractitionerRole?_count=100''], reqs := 1\<rparr>))"
  by (simp add: fetch_all_practitioner_roles_def fmt_def fetch_fhir_resource_def cat_env_def
      page_server_def bundle_of_def earlier_world_def normalize_base_def endswith_def bind_def
      eval_nat_numeral Let_def)

theorem process_payer_without_roles_writes_nothing_witness:
  "process_payer 2 (cat_env (page_server [])) payer_a False 100 earlier_world =
     Some (Inr (earlier_world\<lparr>trace := [Get ''http://a/PractitionerRole?_count=100''], reqs := 1\<rparr>))
   \<and> (\<exists>w1. process_payer 1 (cat_env dead_server) payer_a False 100 earlier_world = Some (Inr w1)
         \<and> files w1 ''payer_slurp_results/a/tele_to_pr.csv'' = Some earlier_rows)"
proof -
  have keys: "map_of payer_a ''payer_name'' = Some ''A''" "map_of payer_a ''payer_stub'' = Some ''a''"
    "map_of payer_a ''payer_provider_directory_fhir_url'' = Some ''http://a''"
    by (simp_all add: payer_a_def)
  note one = process_payer_without_roles_writes_nothing[OF keys,
      where fuel = 2 and env = "cat_env (page_server [])" and test_mode = False
        and test_limit = 100 and w = earlier_world
        and ?w1.0 = "earlier_world\<lparr>trace := [Get ''http://a/PractitionerRole?_count=100''], reqs := 1\<rparr>"]
  note two = process_payer_without_roles_writes_nothing[OF keys,
      where fuel = 0 and env = "cat_env dead_server" and test_mode = False
        and test_limit = 100 and w = earlier_world]
  let ?u = "urljoin (cat_env dead_server) (normalize_base (normalize_base ''http://a''))
              ''PractitionerRole?_count=100''"
  have dead: "\<not> truthy (fst (fetch_fhir_resource (upstream (cat_env dead_server)) ?u 3 earlier_world))"
    by (simp add: fetch_fhir_resource_all_failed cat_env_def dead_server_def)
  have u: "?u \<noteq> []"
    by (simp add: cat_env_def)
  from two[THEN conjunct2, rule_format, OF dead u]
  obtain w1 where w1: "process_payer (Suc 0) (cat_env dead_server) payer_a False 100 earlier_world
      = Some (Inr w1)" "files w1 = files earlier_world"
    by blast
  have old: "files earlier_world ''payer_slurp_results/a/tele_to_pr.csv'' = Some earlier_rows"
    by (simp add: earlier_world_def)
  from one[THEN conjunct1, rule_format, OF crawl_of_empty_page]
  have first: "process_payer 2 (cat_env (page_server [])) payer_a False 100 earlier_world =
     Some (Inr (earlier_world\<lparr>trace := [Get ''http://a/PractitionerRole?_count=100''], reqs := 1\<rparr>))"
    by simp
  from w1 old have "\<exists>w1. process_payer 1 (cat_env dead_server) payer_a False 100 earlier_world
       = Some (Inr w1) \<and> files w1 ''payer_slurp_results/a/tele_to_pr.csv'' = Some earlier_rows"
    by simp
  with first show ?thesis by simp
qed

subsection \<open>Paginator: the cap of the test mode\<close>

lemma entry_loop_step:
  "entry_loop True lim (e # es) acc = Inr found \<Longrightarrow>
   (entry_loop True lim es acc = Inr found \<and>
      (\<forall>rest. entry_loop True lim (e # es @ rest) acc = entry_loop True lim (es @ rest) acc))
   \<or> (\<exists>r. (\<forall>rest. entry_loop True lim (e # es @ rest) acc =
               (if lim \<le> int (length acc) + 1 then Inr (acc @ [r])
                else entry_loop True lim (es @ rest) (acc @ [r])))
          \<and> (if lim \<le> int (length acc) + 1 then found = acc @ [r]
               else entry_loop True lim es (acc @ [r]) = Inr found))"
  by (auto simp: bind_def Let_def split: sum.splits if_splits)

lemma entry_loop_within_limit:
  "int (length acc) < lim \<Longrightarrow> entry_loop True lim es acc = Inr found \<Longrightarrow>
   int (length found) \<le> lim"
proof (induction es arbitrary: acc)
  case Nil
  then show ?case by simp
next
  case (Cons e es)
  from entry_loop_step[OF Cons.prems(2)] show ?case
  proof (elim disjE conjE exE)
    assume "entry_loop True lim es acc = Inr found"
    with Cons.prems(1) show ?thesis by (rule Cons.IH)
  next
    fix r
    assume r: "if lim \<le> int (length acc) + 1 then found = acc @ [r]
               else entry_loop True lim es (acc @ [r]) = Inr found"
    show ?thesis
    proof (cases "lim \<le> int (length acc) + 1")
      case True
      with r Cons.prems(1) show ?thesis by simp
    next
      case False
      then have "int (length (acc @ [r])) < lim" by simp
      moreover from r False have "entry_loop True lim es (acc @ [r]) = Inr found" by simp
      ultimately show ?thesis by (rule Cons.IH)
    qed
  qed
qed

lemma entry_loop_stops_inside_page:
  "int (length acc) < lim \<Longrightarrow> entry_loop True lim es acc = Inr found \<Longrightarrow>
   lim \<le> int (length found) \<Longrightarrow> entry_loop True lim (es @ rest) acc = Inr found"
proof (induction es arbitrary: acc)
  case Nil
  then show ?case by simp
next
  case (Cons e es)
  from entry_loop_step[OF Cons.prems(2)] show ?case
  proof (elim disjE conjE exE)
    assume "entry_loop True lim es acc = Inr found"
      and skip: "\<forall>rest. entry_loop True lim (e # es @ rest) acc = entry_loop True lim (es @ rest) acc"
    with Cons.prems have "entry_loop True lim (es @ rest) acc = Inr found"
      by (intro Cons.IH)
    with skip show ?thesis by simp
  next
    fix r
    assume step: "\<forall>rest. entry_loop True lim (e # es @ rest) acc =
               (if lim \<le> int (length acc) + 1 then Inr (acc @ [r])
                else entry_loop True lim (es @ rest) (acc @ [r]))"
      and r: "if lim \<le> int (length acc) + 1 then found = acc @ [r]
               else entry_loop True lim es (acc @ [r]) = Inr found"
    show ?thesis
    proof (cases "lim \<le> int (length acc) + 1")
      case True
      with r step show ?thesis by simp
    next
      case False
      then have "int (length (acc @ [r])) < lim" by simp
      moreover from r False have "entry_loop True lim es (acc @ [r]) = Inr found" by simp
      ultimately have "entry_loop True lim (es @ rest) (acc @ [r]) = Inr found"
        using Cons.prems(3) by (rule Cons.IH)
      with step False show ?thesis by simp
    qed
  qed
qed

lemma pages_loop_within_limit:
  "int (length acc) < lim \<Longrightarrow>
   pages_loop fuel env True lim next_url acc w = Some (Inr (roles, w')) \<Longrightarrow>
   int (length roles) \<le> lim"
proof (induction fuel arbitrary: next_url acc w)
  case 0
  then show ?case by simp
next
  case (Suc fuel)
  obtain page w1 where f: "fetch_fhir_resource (upstream env) (fmt env next_url) 3 w = (page, w1)"
    by (cases "fetch_fhir_resource (upstream env) (fmt env next_url) 3 w")
  show ?case
  proof (cases "truthy next_url \<and> truthy page")
    case False
    with Suc.prems f show ?thesis by (auto split: if_splits)
  next
    case True
    let ?scan = "bind (dict_get page ''entry'' (JArr [])) (\<lambda>entries.
                 bind (py_iter entries) (\<lambda>es. entry_loop True lim es acc))"
    show ?thesis
    proof (cases ?scan)
      case (Inl e)
      with Suc.prems f True show ?thesis by simp
    next
      case (Inr found)
      then obtain es where "entry_loop True lim es acc = Inr found"
        by (auto simp: bind_def split: sum.splits)
      with Suc.prems(1) have bound: "int (length found) \<le> lim"
        by (rule entry_loop_within_limit)
      show ?thesis
      proof (cases "lim \<le> int (length found)")
        case True
        with Suc.prems f \<open>truthy next_url \<and> truthy page\<close> Inr bound show ?thesis by simp
      next
        case False
        then have less: "int (length found) < lim" by simp
        from Suc.prems f \<open>truthy next_url \<and> truthy page\<close> Inr False
        show ?thesis
          by (auto split: sum.splits dest: Suc.IH[OF less])
      qed
    qed
  qed
qed

text \<open>On a page of the FHIR shape the scan is exact: it appends the PractitionerRoles of
  the page in order, up to the record that brings the count to the cap.\<close>

lemma entry_loop_exact:
  "page_roles es = Some roles \<Longrightarrow> int (length acc) < lim \<Longrightarrow>
   entry_loop True lim es acc = Inr (acc @ take (nat (lim - int (length acc))) roles)"
proof (induction es arbitrary: acc roles)
  case Nil
  then show ?case by simp
next
  case (Cons e es)
  from Cons.prems(1) obtain ekvs where e: "e = JObj ekvs"
    by (cases e) simp_all
  let ?r = "case map_of ekvs ''resource'' of None \<Rightarrow> JObj [] | Some r \<Rightarrow> r"
  from Cons.prems(1) e obtain rkvs where r: "?r = JObj rkvs"
    by (cases ?r) simp_all
  from Cons.prems(1) e r obtain rs where rs: "page_roles es = Some rs"
    and roles: "roles = (if map_of rkvs ''resourceType'' = Some (JStr ''PractitionerRole'')
                         then JObj rkvs # rs else rs)"
    by auto
  show ?case
  proof (cases "map_of rkvs ''resourceType'' = Some (JStr ''PractitionerRole'')")
    case False
    then have "(case map_of rkvs ''resourceType'' of None \<Rightarrow> JNull | Some v \<Rightarrow> v)
        \<noteq> JStr ''PractitionerRole''"
      by (auto split: option.splits)
    with e r roles False Cons.IH[OF rs Cons.prems(2)] show ?thesis
      by (simp add: bind_def)
  next
    case True
    show ?thesis
    proof (cases "lim \<le> int (length acc) + 1")
      case stop: True
      with Cons.prems(2) have "nat (lim - int (length acc)) = 1" by simp
      with e r roles True stop show ?thesis
        by (simp add: bind_def Let_def)
    next
      case go: False
      then have below: "int (length (acc @ [JObj rkvs])) < lim" by simp
      from go have n: "nat (lim - int (length acc)) = Suc (nat (lim - int (length (acc @ [JObj rkvs]))))"
        by simp
      from go have further: "\<not> lim \<le> int (length (acc @ [JObj rkvs]))" by simp
      from Cons.IH[OF rs below] e r roles True further show ?thesis
        by (simp add: bind_def Let_def n del: length_append)
    qed
  qed
qed

text \<open>
  Claim C7, as the code has it. In test mode, while the cap has not been reached: the
  scan of a page never accumulates more than the cap; it stops at the record that
  reaches the cap, inside the page, so that whatever follows on the page is not even
  looked at; the whole pagination returns at most the cap; and when the scan of a page
  has reached the cap the pagination returns in the world left by the fetch of that page,
  with no further request, whatever next link the page carries.

  On pages of the FHIR shape this is exact. The scan returns the records it had with the
  PractitionerRoles of the page appended in order, up to the one that brings the count
  to the cap. When the page holds enough of them to reach the cap, the pagination
  returns just that, in the world left by the fetch of the page. When it does not, all
  of them are accumulated and the pagination goes on with the next link of the page.
\<close>

theorem paginator_test_limit:
  assumes "int (length all_entries) < test_limit"
  shows "(entry_loop True test_limit entries all_entries = Inr found \<longrightarrow>
            int (length found) \<le> test_limit)
    \<and> (entry_loop True test_limit entries all_entries = Inr found \<longrightarrow>
            test_limit \<le> int (length found) \<longrightarrow>
            entry_loop True test_limit (entries @ rest) all_entries = Inr found)
    \<and> (pages_loop fuel env True test_limit next_url all_entries w = Some (Inr (roles, w')) \<longrightarrow>
            int (length roles) \<le> test_limit)
    \<and> (truthy next_url \<longrightarrow>
          fetch_fhir_resource (upstream env) (fmt env next_url) 3 w = (page, w1) \<longrightarrow>
          dict_get page ''entry'' (JArr []) = Inr (JArr entries) \<longrightarrow>
          entry_loop True test_limit entries all_entries = Inr found \<longrightarrow>
          test_limit \<le> int (length found) \<longrightarrow>
          pages_loop (Suc fuel) env True test_limit next_url all_entries w =
            Some (Inr (found, w1)))
    \<and> (page_roles entries = Some prs \<longrightarrow>
          entry_loop True test_limit entries all_entries =
            Inr (all_entries @ take (nat (test_limit - int (length all_entries))) prs))
    \<and> (page_roles entries = Some prs \<longrightarrow>
          test_limit \<le> int (length all_entries) + int (length prs) \<longrightarrow>
          entry_loop True test_limit (entries @ rest) all_entries =
            Inr (all_entries @ take (nat (test_limit - int (length all_entries))) prs))
    \<and> (truthy next_url \<longrightarrow>
          fetch_fhir_resource (upstream env) (fmt env next_url) 3 w = (page, w1) \<longrightarrow>
          dict_get page ''entry'' (JArr []) = Inr (JArr (entries @ rest)) \<longrightarrow>
          page_roles entries = Some prs \<longrightarrow>
          test_limit \<le> int (length all_entries) + int (length prs) \<longrightarrow>
          pages_loop (Suc fuel) env True test_limit next_url all_entries w =
            Some (Inr (all_entries @ take (nat (test_limit - int (length all_entries))) prs, w1)))
    \<and> (truthy next_url \<longrightarrow>
          fetch_fhir_resource (upstream env) (fmt env next_url) 3 w = (page, w1) \<longrightarrow>
          truthy page \<longrightarrow>
          dict_get page ''entry'' (JArr []) = Inr (JArr entries) \<longrightarrow>
          page_roles entries = Some prs \<longrightarrow>
          int (length all_entries) + int (length prs) < test_limit \<longrightarrow>
          pages_loop (Suc fuel) env True test_limit next_url all_entries w =
            (case bind (dict_get page ''link'' (JArr [])) (\<lambda>links.
                  bind (py_iter links) find_next) of
               Inl e \<Rightarrow> Some (Inl (e, w1))
             | Inr nxt \<Rightarrow> pages_loop fuel env True test_limit nxt (all_entries @ prs) w1))"
proof (intro conjI impI)
  assume "entry_loop True test_limit entries all_entries = Inr found"
  with assms show "int (length found) \<le> test_limit"
    by (rule entry_loop_within_limit)
next
  assume "entry_loop True test_limit entries all_entries = Inr found"
    "test_limit \<le> int (length found)"
  with assms show "entry_loop True test_limit (entries @ rest) all_entries = Inr found"
    by (rule entry_loop_stops_inside_page)
next
  assume "pages_loop fuel env True test_limit next_url all_entries w = Some (Inr (roles, w'))"
  with assms show "int (length roles) \<le> test_limit"
    by (rule pages_loop_within_limit)
next
  assume a: "truthy next_url"
    "fetch_fhir_resource (upstream env) (fmt env next_url) 3 w = (page, w1)"
    "dict_get page ''entry'' (JArr []) = Inr (JArr entries)"
    "entry_loop True test_limit entries all_entries = Inr found"
    "test_limit \<le> int (length found)"
  have "truthy page"
  proof (rule ccontr)
    assume "\<not> truthy page"
    with a(3) have "entries = []" by (cases page) auto
    with a(4) have "found = all_entries" by simp
    with a(5) assms show False by simp
  qed
  with a show "pages_loop (Suc fuel) env True test_limit next_url all_entries w =
      Some (Inr (found, w1))"
    by (simp add: bind_def)
next
  assume "page_roles entries = Some prs"
  then show "entry_loop True test_limit entries all_entries =
      Inr (all_entries @ take (nat (test_limit - int (length all_entries))) prs)"
    using assms by (rule entry_loop_exact)
next
  let ?found = "all_entries @ take (nat (test_limit - int (length all_entries))) prs"
  assume prs: "page_roles entries = Some prs"
    and enough: "test_limit \<le> int (length all_entries) + int (length prs)"
  from prs assms have "entry_loop True test_limit entries all_entries = Inr ?found"
    by (rule entry_loop_exact)
  moreover from enough assms have "test_limit \<le> int (length ?found)"
    by (simp add: min_def)
  ultimately show "entry_loop True test_limit (entries @ rest) all_entries = Inr ?found"
    by (rule entry_loop_stops_inside_page[OF assms])
next
  let ?found = "all_entries @ take (nat (test_limit - int (length all_entries))) prs"
  assume a: "truthy next_url"
    "fetch_fhir_resource (upstream env) (fmt env next_url) 3 w = (page, w1)"
    "dict_get page ''entry'' (JArr []) = Inr (JArr (entries @ rest))"
    and prs: "page_roles entries = Some prs"
    and enough: "test_limit \<le> int (length all_entries) + int (length prs)"
  from prs assms have "entry_loop True test_limit entries all_entries = Inr ?found"
    by (rule entry_loop_exact)
  moreover from enough assms have reached: "test_limit \<le> int (length ?found)"
    by (simp add: min_def)
  ultimately have scan: "entry_loop True test_limit (entries @ rest) all_entries = Inr ?found"
    by (rule entry_loop_stops_inside_page[OF assms])
  have "truthy page"
  proof (rule ccontr)
    assume "\<not> truthy page"
    with a(3) have "entries = []" by (cases page) auto
    with prs have "prs = []" by simp
    with enough assms show False by simp
  qed
  with a scan reached show "pages_loop (Suc fuel) env True test_limit next_url all_entries w =
      Some (Inr (?found, w1))"
    by (simp add: bind_def)
next
  assume a: "truthy next_url"
    "fetch_fhir_resource (upstream env) (fmt env next_url) 3 w = (page, w1)"
    "truthy page"
    "dict_get page ''entry'' (JArr []) = Inr (JArr entries)"
    and prs: "page_roles entries = Some prs"
    and few: "int (length all_entries) + int (length prs) < test_limit"
  from prs assms have "entry_loop True test_limit entries all_entries =
      Inr (all_entries @ take (nat (test_limit - int (length all_entries))) prs)"
    by (rule entry_loop_exact)
  moreover from few have "take (nat (test_limit - int (length all_entries))) prs = prs"
    by simp
  ultimately have scan: "entry_loop True test_limit entries all_entries = Inr (all_entries @ prs)"
    by simp
  from few have "\<not> test_limit \<le> int (length (all_entries @ prs))" by simp
  with a scan show "pages_loop (Suc fuel) env True test_limit next_url all_entries w =
            (case bind (dict_get page ''link'' (JArr [])) (\<lambda>links.
                  bind (py_iter links) find_next) of
               Inl e \<Rightarrow> Some (Inl (e, w1))
             | Inr nxt \<Rightarrow> pages_loop fuel env True test_limit nxt (all_entries @ prs) w1)"
    by (simp add: bind_def del: length_append)
qed

lemma scan_of_three_roles:
  "entry_loop True 2 (map (\<lambda>r. JObj [(''resource'', r)])
       [plain_role ''r1'', plain_role ''r2'', plain_role ''r3'']) [] =
     Inr [plain_role ''r1'', plain_role ''r2'']"
  by (simp add: bind_def plain_role_def Let_def)

lemma page_of_three_roles:
  "fetch_fhir_resource (page_server [plain_role ''r1'', plain_role ''r2'', plain_role ''r3''])
     ''http://a/PractitionerRole?_count=100'' 3 blank_world =
   (bundle_of [plain_role ''r1'', plain_role ''r2'', plain_role ''r3''],
    \<lparr>trace = [Get ''http://a/PractitionerRole?_count=100''], reqs = 1, files = Map.empty\<rparr>)"
  by (simp add: fetch_fhir_resource_def page_server_def blank_world_def eval_nat_numeral Let_def)

text \<open>
  Claim C7 as stated fails where it says that the cap is checked only after the page being
  processed is finished: with a cap of 2 and a first page of three PractitionerRoles the
  crawl returns the first two, not the three a check after the page would give. The cap
  is checked after every record appended (line 99).
\<close>

theorem paginator_cap_inside_page_counterexample:
  "fetch_all_practitioner_roles 1
     (cat_env (page_server [plain_role ''r1'', plain_role ''r2'', plain_role ''r3'']))
     ''http://a'' True 2 blank_world =
   Some (Inr ([plain_role ''r1'', plain_role ''r2''],
              \<lparr>trace = [Get ''http://a/PractitionerRole?_count=100''], reqs = 1,
               files = Map.empty\<rparr>))
   \<and> [plain_role ''r1'', plain_role ''r2''] \<noteq> [plain_role ''r1'', plain_role ''r2'', plain_role ''r3'']"
proof -
  have "pages_loop 1 (cat_env (page_server [plain_role ''r1'', plain_role ''r2'', plain_role ''r3'']))
      True 2 (JStr ''http://a/PractitionerRole?_count=100'') [] blank_world =
    Some (Inr ([plain_role ''r1'', plain_role ''r2''],
              \<lparr>trace = [Get ''http://a/PractitionerRole?_count=100''], reqs = 1,
               files = Map.empty\<rparr>))"
    using page_of_three_roles scan_of_three_roles
    by (simp add: fmt_def cat_env_def bundle_of_def bind_def)
  then show ?thesis
    by (simp add: fetch_all_practitioner_roles_def normalize_base_def endswith_def cat_env_def)
qed

lemma fetch_of_first_page:
  "fetch_fhir_resource two_page_server ''http://a/page1'' 3 blank_world =
     (first_page, \<lparr>trace = [Get ''http://a/page1''], reqs = 1, files = Map.empty\<rparr>)"
  by (simp add: fetch_fhir_resource_def two_page_server_def blank_world_def eval_nat_numeral Let_def)

lemma fetch_of_second_page:
  "fetch_fhir_resource two_page_server ''http://a/page2'' 3
     \<lparr>trace = [Get ''http://a/page1''], reqs = 1, files = Map.empty\<rparr> =
     (bundle_of [plain_role ''r3'', plain_role ''r4'', plain_role ''r5''],
      \<lparr>trace = [Get ''http://a/page1'', Get ''http://a/page2''], reqs = 2, files = Map.empty\<rparr>)"
  by (simp add: fetch_fhir_resource_def two_page_server_def eval_nat_numeral Let_def)

text \<open>The witness: a cap of 3 on the directory of two pages. The first page gives two
  PractitionerRoles, below the cap, and the pagination follows its next link; the first
  record of the second page reaches the cap, and the two records after it are dropped.\<close>

theorem paginator_test_limit_witness:
  "pages_loop 2 (cat_env two_page_server) True 3 (JStr ''http://a/page1'') [] blank_world =
     Some (Inr ([plain_role ''r1'', plain_role ''r2'', plain_role ''r3''],
                \<lparr>trace = [Get ''http://a/page1'', Get ''http://a/page2''], reqs = 2,
                 files = Map.empty\<rparr>))
   \<and> entry_loop True 2 (map (\<lambda>r. JObj [(''resource'', r)])
       ([plain_role ''r1'', plain_role ''r2''] @ [plain_role ''r3''])) [] =
     Inr [plain_role ''r1'', plain_role ''r2'']"
proof -
  let ?env = "cat_env two_page_server"
  let ?w1 = "\<lparr>trace = [Get ''http://a/page1''], reqs = 1, files = Map.empty\<rparr>"
  let ?w2 = "\<lparr>trace = [Get ''http://a/page1'', Get ''http://a/page2''], reqs = 2,
              files = Map.empty\<rparr>"
  let ?e1 = "[JObj [(''resource'', plain_role ''r1'')],
              JObj [(''resource'', JObj [(''resourceType'', JStr ''Organization'')])],
              JObj [(''resource'', plain_role ''r2'')]]"
  have cap0: "int (length ([] :: json list)) < 3" by simp
  have cap2: "int (length [plain_role ''r1'', plain_role ''r2'']) < 3" by simp
  note page1 = paginator_test_limit[OF cap0, where fuel = 1 and env = "?env"
      and next_url = "JStr ''http://a/page1''" and w = blank_world and page = first_page
      and ?w1.0 = "?w1" and entries = "?e1" and prs = "[plain_role ''r1'', plain_role ''r2'']"]
  note page2 = paginator_test_limit[OF cap2, where fuel = 0 and env = "?env"
      and next_url = "JStr ''http://a/page2''" and w = "?w1"
      and page = "bundle_of [plain_role ''r3'', plain_role ''r4'', plain_role ''r5'']"
      and ?w1.0 = "?w2" and entries = "[JObj [(''resource'', plain_role ''r3'')]]"
      and rest = "[JObj [(''resource'', plain_role ''r4'')], JObj [(''resource'', plain_role ''r5'')]]"
      and prs = "[plain_role ''r3'']"]
  have roles1: "page_roles ?e1 = Some [plain_role ''r1'', plain_role ''r2'']"
    by (simp add: plain_role_def)
  have roles2: "page_roles [JObj [(''resource'', plain_role ''r3'')]] = Some [plain_role ''r3'']"
    by (simp add: plain_role_def)
  have link: "bind (dict_get first_page ''link'' (JArr [])) (\<lambda>links. bind (py_iter links) find_next)
      = Inr (JStr ''http://a/page2'')"
    by (simp add: first_page_def bind_def)
  have entries1: "dict_get first_page ''entry'' (JArr []) = Inr (JArr ?e1)"
    by (simp add: first_page_def)
  have "pages_loop (Suc 1) ?env True 3 (JStr ''http://a/page1'') [] blank_world =
      pages_loop 1 ?env True 3 (JStr ''http://a/page2'') [plain_role ''r1'', plain_role ''r2''] ?w1"
    using page1 fetch_of_first_page roles1 link entries1
    by (simp add: fmt_def cat_env_def first_page_def)
  moreover have "pages_loop (Suc 0) ?env True 3 (JStr ''http://a/page2'')
      [plain_role ''r1'', plain_role ''r2''] ?w1 =
      Some (Inr ([plain_role ''r1'', plain_role ''r2'', plain_role ''r3''], ?w2))"
    using page2 fetch_of_second_page roles2
    by (simp add: fmt_def cat_env_def bundle_of_def)
  ultimately have pages: "pages_loop 2 ?env True 3 (JStr ''http://a/page1'') [] blank_world =
      Some (Inr ([plain_role ''r1'', plain_role ''r2'', plain_role ''r3''], ?w2))"
    by (simp add: eval_nat_numeral)
  have cap: "int (length ([] :: json list)) < 2" by simp
  have two: "page_roles (map (\<lambda>r. JObj [(''resource'', r)]) [plain_role ''r1'', plain_role ''r2''])
      = Some [plain_role ''r1'', plain_role ''r2'']"
    by (simp add: plain_role_def)
  note scan = paginator_test_limit[OF cap,
      where entries = "map (\<lambda>r. JObj [(''resource'', r)]) [plain_role ''r1'', plain_role ''r2'']"
      and prs = "[plain_role ''r1'', plain_role ''r2'']"
      and rest = "[JObj [(''resource'', plain_role ''r3'')]]"]
  from scan two have "entry_loop True 2 (map (\<lambda>r. JObj [(''resource'', r)])
       ([plain_role ''r1'', plain_role ''r2''] @ [plain_role ''r3''])) [] =
     Inr [plain_role ''r1'', plain_role ''r2'']"
    by simp
  with pages show ?thesis by simp
qed

end

